theory Spec2Isabelle
  imports Main
begin

section \<open>Python values, errors and the collaborators of \<open>Project\<close>\<close>

text \<open>
  The scalar values a task record or a table cell holds. Python's \<open>bool\<close> is a subclass
  of \<open>int\<close> (\<open>True == 1\<close>, \<open>False == 0\<close>, same hash, same truth value, and
  \<open>"'" + True\<close> raises like \<open>"'" + 1\<close>), so \<open>True\<close> and \<open>False\<close> are \<open>PInt 1\<close> and
  \<open>PInt 0\<close>; with that, equality of \<open>pyval\<close> is Python's \<open>==\<close> on these values, which is
  what \<open>set\<close> and \<open>set.difference\<close> compare with.
\<close>

datatype pyval = PNone | PInt int | PStr string

text \<open>The truth value Python's \<open>if v:\<close> tests.\<close>

fun truthy :: "pyval \<Rightarrow> bool" where
  "truthy PNone = False"
| "truthy (PInt n) = (n \<noteq> 0)"
| "truthy (PStr s) = (s \<noteq> [])"

text \<open>
  A dict of the remote service (a task record, the project metadata): an association
  list, read with \<open>map_of\<close>. \<open>d[k]\<close> raises \<open>KeyError\<close> on a missing key, \<open>d.get(k)\<close>
  gives \<open>None\<close>.
\<close>

type_synonym pydict = "(string \<times> pyval) list"

definition py_get :: "pydict \<Rightarrow> string \<Rightarrow> pyval" where
  "py_get d k = (case map_of d k of None \<Rightarrow> PNone | Some v \<Rightarrow> v)"

text \<open>The errors of \<open>asana.error\<close> the client raises, and the exceptions of the run.\<close>

datatype api_error = NotFoundError | ForbiddenError | ServerError

datatype py_error =
    NoSuchProjectException int
  | AsanaError api_error
  | KeyError string
  | IndexError
  | TypeError

text \<open>
  A field object of module \<open>fields\<close> (duck-typed; the module is a parameter of
  \<open>Project\<close>). \<open>sql_name\<close> is falsy (\<open>None\<close> or the empty string, both \<open>[]\<close> here) for
  an indirect field and is read only on direct fields. \<open>get_data_from_task\<close> is the
  field's extraction function on a task record; the side effects an indirect field has
  go to the workspace collaborator and are not part of this model.
\<close>

record field =
  sql_name :: string
  field_definition_sql :: string
  get_data_from_task :: "pydict \<Rightarrow> pyval"
  required_fields :: "string list"

text \<open>
  The remote client: \<open>projects.find_by_id\<close>, \<open>tasks.find_by_project\<close> and
  \<open>tasks.subtasks\<close>, as functions of their arguments (the remote project does not
  change during a run). The database collaborator: \<open>read\<close> gives the rows of a query;
  \<open>write\<close> is recorded in the trace below.
\<close>

record asana_client =
  find_by_id :: "int \<Rightarrow> api_error + pydict"
  find_by_project :: "int \<Rightarrow> string \<Rightarrow> pydict list"
  subtasks :: "pyval \<Rightarrow> string \<Rightarrow> pydict list"

record db_client =
  db_read :: "string \<Rightarrow> pyval list list"

text \<open>Every call the run makes to a collaborator, in call order.\<close>

datatype event =
    FindById int
  | FindByProject int string
  | Subtasks pyval string
  | DbRead string
  | DbWrite string "pyval list"

record config =
  cfg_project_id :: int
  cfg_table_name :: "string option"

text \<open>
  The object \<open>self\<close>. \<open>util_sql_safe_name\<close> is \<open>util.sql_safe_name\<close>: module \<open>util\<close> is
  not among the sources, so its function is a parameter carried with the object.
  \<open>trace\<close> is the history of the calls to the two clients.
\<close>

record project =
  asana_client :: asana_client
  db_client :: db_client
  util_sql_safe_name :: "string \<Rightarrow> string"
  direct_fields :: "field list"
  indirect_fields :: "field list"
  project_id :: int
  table_name_attr :: "string option"
  project_data_cache :: "pydict option"
  task_cache :: "pydict list option"
  trace :: "event list"

section \<open>Methods run on the object: state passing, exceptions as values\<close>

type_synonym 'a action = "project \<Rightarrow> (py_error + 'a) \<times> project"

definition bindM :: "'a action \<Rightarrow> ('a \<Rightarrow> 'b action) \<Rightarrow> 'b action" where
  "bindM m f st = (case m st of (Inl e, st') \<Rightarrow> (Inl e, st') | (Inr x, st') \<Rightarrow> f x st')"

definition emit :: "event \<Rightarrow> unit action" where
  "emit e st = (Inr (), st\<lparr>trace := trace st @ [e]\<rparr>)"

text \<open>\<open>for x in xs: f(x)\<close>: the first exception ends the loop.\<close>

fun for_each :: "('a \<Rightarrow> unit action) \<Rightarrow> 'a list \<Rightarrow> unit action" where
  "for_each f [] st = (Inr (), st)"
| "for_each f (x # xs) st = bindM (f x) (\<lambda>_. for_each f xs) st"

text \<open>\<open>sep.join(xs)\<close>.\<close>

fun join :: "string \<Rightarrow> string list \<Rightarrow> string" where
  "join sep [] = []"
| "join sep [x] = x"
| "join sep (x # y # ys) = x @ sep @ join sep (y # ys)"

abbreviation (input) SQ :: string where
  "SQ \<equiv> [CHR 0x27]"

subsection \<open>The statement templates\<close>

definition CREATE_TABLE_TEMPLATE :: "string \<Rightarrow> string \<Rightarrow> string" where
  \<open>CREATE_TABLE_TEMPLATE table_name columns =
     ''CREATE TABLE IF NOT EXISTS "'' @ table_name @ ''" ('' @ columns @ '');''\<close>

definition INSERT_OR_REPLACE_TEMPLATE :: "string \<Rightarrow> string \<Rightarrow> string \<Rightarrow> string \<Rightarrow> string" where
  \<open>INSERT_OR_REPLACE_TEMPLATE table_name columns vals set_command =
     ''INSERT INTO "'' @ table_name @ ''" ('' @ columns @ '') VALUES ('' @ vals
       @ '') ON CONFLICT (gid) DO UPDATE SET '' @ set_command @ '';''\<close>

definition SELECT_TEMPLATE :: "string \<Rightarrow> string \<Rightarrow> string" where
  \<open>SELECT_TEMPLATE columns table_name =
     ''SELECT '' @ columns @ '' FROM "'' @ table_name @ ''";''\<close>

definition DELETE_TEMPLATE :: "string \<Rightarrow> string \<Rightarrow> string" where
  \<open>DELETE_TEMPLATE table_name id_column =
     ''DELETE FROM "'' @ table_name @ ''" WHERE '' @ id_column @ '' = ?;''\<close>

subsection \<open>Construction\<close>

definition add_field :: "field \<Rightarrow> project \<Rightarrow> project" where
  "add_field f st =
     (if sql_name f \<noteq> [] then st\<lparr>direct_fields := direct_fields st @ [f]\<rparr>
      else st\<lparr>indirect_fields := indirect_fields st @ [f]\<rparr>)"

text \<open>\<open>Project.__init__\<close> (the workspace collaborator is stored and never used here).\<close>

definition Project_init ::
  "asana_client \<Rightarrow> db_client \<Rightarrow> (string \<Rightarrow> string) \<Rightarrow> config \<Rightarrow> field list \<Rightarrow> project" where
  "Project_init ac db safe cfg fs =
     fold add_field fs
       \<lparr>asana_client = ac, db_client = db, util_sql_safe_name = safe,
        direct_fields = [], indirect_fields = [],
        project_id = cfg_project_id cfg, table_name_attr = cfg_table_name cfg,
        project_data_cache = None, task_cache = None, trace = []\<rparr>"

subsection \<open>Remote data access\<close>

definition project_data :: "pydict action" where
  "project_data st =
     (case project_data_cache st of
        None \<Rightarrow>
          (let st1 = st\<lparr>trace := trace st @ [FindById (project_id st)]\<rparr>
           in case find_by_id (asana_client st) (project_id st) of
                Inl NotFoundError \<Rightarrow> (Inl (NoSuchProjectException (project_id st)), st1)
              | Inl e \<Rightarrow> (Inl (AsanaError e), st1)
              | Inr d \<Rightarrow> (Inr d, st1\<lparr>project_data_cache := Some d\<rparr>))
      | Some d \<Rightarrow> (Inr d, st))"

text \<open>
  \<open>_required_fields\<close> builds a \<open>set\<close>; \<open>",".join\<close> of it lists each name once, in the
  set's iteration order, which Python leaves open: the model fixes one order
  (\<open>remdups\<close> keeps the last occurrence of a name). Every fetch of a run passes this
  same string.
\<close>

definition Project_required_fields :: "project \<Rightarrow> string list" where
  "Project_required_fields st =
     remdups (concat (map required_fields (direct_fields st @ indirect_fields st)))"

definition fields_param :: "project \<Rightarrow> string" where
  "fields_param st = join '','' (Project_required_fields st)"

text \<open>The inner loop of \<open>_tasks\<close>: \<open>print(sub_task['name'])\<close>, then the append.\<close>

fun append_sub_tasks :: "pydict list \<Rightarrow> unit action" where
  "append_sub_tasks [] st = (Inr (), st)"
| "append_sub_tasks (sub_task # rest) st =
     (case map_of sub_task ''name'' of
        None \<Rightarrow> (Inl (KeyError ''name''), st)
      | Some _ \<Rightarrow>
          append_sub_tasks rest
            (st\<lparr>task_cache := map_option (\<lambda>c. c @ [sub_task]) (task_cache st)\<rparr>))"

text \<open>The outer loop of \<open>_tasks\<close>, over the second fetch of the project's tasks.\<close>

fun expand_tasks :: "pydict list \<Rightarrow> unit action" where
  "expand_tasks [] st = (Inr (), st)"
| "expand_tasks (task # rest) st =
     (case map_of task ''gid'' of
        None \<Rightarrow> (Inl (KeyError ''gid''), st)
      | Some task_id \<Rightarrow>
          bindM
            (append_sub_tasks (subtasks (asana_client st) task_id (fields_param st)))
            (\<lambda>_. expand_tasks rest)
            (st\<lparr>trace := trace st @ [Subtasks task_id (fields_param st)]\<rparr>))"

definition tasks :: "pydict list action" where
  "tasks st =
     (case task_cache st of
        Some c \<Rightarrow> (Inr c, st)
      | None \<Rightarrow>
          (let fetch = FindByProject (project_id st) (fields_param st);
               found = find_by_project (asana_client st) (project_id st) (fields_param st);
               st1 = st\<lparr>task_cache := Some found, trace := trace st @ [fetch]\<rparr>;
               st2 = st1\<lparr>trace := trace st1 @ [fetch]\<rparr>
           in bindM (expand_tasks found)
                (\<lambda>_ st3. (Inr (case task_cache st3 of Some c \<Rightarrow> c | None \<Rightarrow> []), st3))
                st2))"

subsection \<open>Table naming\<close>

definition project_name :: "pyval action" where
  "project_name =
     bindM project_data
       (\<lambda>d st. case map_of d ''name'' of
                 None \<Rightarrow> (Inl (KeyError ''name''), st)
               | Some v \<Rightarrow> (Inr v, st))"

text \<open>
  \<open>util.sql_safe_name(self._table_name if self._table_name else self.project_name())\<close>.
  The sanitiser is a function on strings; a project name that is not a string is a
  \<open>TypeError\<close> in the model.
\<close>

definition table_name :: "string action" where
  "table_name st =
     (case (case table_name_attr st of
              Some n \<Rightarrow> if n \<noteq> [] then (Inr (PStr n), st) else project_name st
            | None \<Rightarrow> project_name st) of
        (Inl e, st') \<Rightarrow> (Inl e, st')
      | (Inr (PStr s), st') \<Rightarrow> (Inr (util_sql_safe_name st' s), st')
      | (Inr _, st') \<Rightarrow> (Inl TypeError, st'))"

subsection \<open>The synchronization engine\<close>

definition create_table :: "unit action" where
  "create_table =
     bindM table_name (\<lambda>_.
     bindM table_name (\<lambda>tn st.
       emit (DbWrite
               (CREATE_TABLE_TEMPLATE tn
                  (join '','' (map field_definition_sql (direct_fields st)))) []) st))"

text \<open>
  The loop of \<open>insert_or_replace\<close> that builds \<open>set_command\<close>. \<open>str + v\<close> raises
  \<open>TypeError\<close> unless \<open>v\<close> is a string.
\<close>

fun set_command_loop :: "field list \<Rightarrow> pydict \<Rightarrow> string \<Rightarrow> py_error + string" where
  "set_command_loop [] task set_command = Inr set_command"
| "set_command_loop (f # fs) task set_command =
     (let v = get_data_from_task f task;
          set_command1 =
            (if set_command \<noteq> [] \<and> truthy v then set_command @ '', '' else set_command)
      in if truthy v then
           (case v of
              PStr s \<Rightarrow>
                set_command_loop fs task
                  (set_command1 @ '' '' @ sql_name f @ '' = '' @ SQ @ s @ SQ)
            | _ \<Rightarrow> Inl TypeError)
         else set_command_loop fs task set_command1)"

definition insert_or_replace :: "pydict \<Rightarrow> unit action" where
  "insert_or_replace task st =
     (let columns = join '','' (map sql_name (direct_fields st));
          vals = join '','' (map (\<lambda>_. ''?'') (direct_fields st))
      in case set_command_loop (direct_fields st) task [] of
           Inl e \<Rightarrow> (Inl e, st)
         | Inr set_command \<Rightarrow>
             (let params = map (\<lambda>f. get_data_from_task f task) (direct_fields st)
              in bindM table_name
                   (\<lambda>tn. emit (DbWrite
                                 (INSERT_OR_REPLACE_TEMPLATE tn columns vals set_command)
                                 params))
                   st))"

definition export :: "unit action" where
  "export = bindM tasks (for_each insert_or_replace)"

definition id_field :: "field action" where
  "id_field st = (case direct_fields st of [] \<Rightarrow> (Inl IndexError, st) | f # _ \<Rightarrow> (Inr f, st))"

definition delete :: "pyval \<Rightarrow> unit action" where
  "delete task_id =
     bindM id_field (\<lambda>idf.
     bindM table_name (\<lambda>tn.
       emit (DbWrite (DELETE_TEMPLATE tn (sql_name idf)) [task_id])))"

text \<open>\<open>row[0] for row in rows\<close>.\<close>

fun first_columns :: "pyval list list \<Rightarrow> py_error + pyval list" where
  "first_columns [] = Inr []"
| "first_columns (row # rows) =
     (case row of
        [] \<Rightarrow> Inl IndexError
      | v # _ \<Rightarrow> (case first_columns rows of Inl e \<Rightarrow> Inl e | Inr vs \<Rightarrow> Inr (v # vs)))"

text \<open>
  The two id sets are Python \<open>set\<close>s: lists without duplicates here, their order (the
  order in which the deletions are issued) left open by Python.
\<close>

definition db_task_ids :: "pyval list action" where
  "db_task_ids =
     bindM id_field (\<lambda>idf.
     bindM table_name (\<lambda>tn st.
       (let sql = SELECT_TEMPLATE (sql_name idf) tn;
            st1 = st\<lparr>trace := trace st @ [DbRead sql]\<rparr>
        in case first_columns (db_read (db_client st) sql) of
             Inl e \<Rightarrow> (Inl e, st1)
           | Inr ids \<Rightarrow> (Inr (remdups ids), st1))))"

text \<open>\<open>a.difference(b)\<close> on these sets.\<close>

definition difference :: "pyval list \<Rightarrow> pyval list \<Rightarrow> pyval list" where
  "difference a b = filter (\<lambda>i. i \<notin> set b) a"

definition asana_task_ids :: "pyval list action" where
  "asana_task_ids =
     bindM tasks (\<lambda>ts st. (Inr (remdups (map (\<lambda>task. py_get task ''gid'') ts)), st))"

definition synchronize :: "unit action" where
  "synchronize =
     bindM db_task_ids (\<lambda>db_ids.
     bindM asana_task_ids (\<lambda>asana_ids.
       (let ids_to_remove = difference db_ids asana_ids
        in bindM tasks (\<lambda>ts.
           bindM (for_each insert_or_replace ts) (\<lambda>_.
             for_each delete ids_to_remove)))))"


section \<open>Notions used to state the properties\<close>

subsection \<open>Statements in the trace\<close>

text \<open>The writes to the database among some calls, in call order.\<close>

fun is_write :: "event \<Rightarrow> bool" where
  "is_write (DbWrite sql params) = True"
| "is_write _ = False"

definition db_writes :: "event list \<Rightarrow> event list" where
  "db_writes evs = filter is_write evs"

text \<open>
  An upsert or a delete statement is told by the fixed head of its template; every
  statement made with \<open>INSERT_OR_REPLACE_TEMPLATE\<close> is an upsert and every statement made
  with \<open>DELETE_TEMPLATE\<close> a delete, whatever the table, the fields and the values are.
\<close>

fun is_upsert :: "event \<Rightarrow> bool" where
  "is_upsert (DbWrite sql params) = (take 11 sql = ''INSERT INTO'')"
| "is_upsert _ = False"

fun is_delete :: "event \<Rightarrow> bool" where
  "is_delete (DbWrite sql params) = (take 11 sql = ''DELETE FROM'')"
| "is_delete _ = False"

text \<open>The positional parameters and the statement text of a write.\<close>

fun write_params :: "event \<Rightarrow> pyval list" where
  "write_params (DbWrite sql params) = params"
| "write_params _ = []"

fun write_sql :: "event \<Rightarrow> string" where
  "write_sql (DbWrite sql params) = sql"
| "write_sql _ = []"

text \<open>
  The identifiers deleted by a run that leads from \<open>st\<close> to \<open>st'\<close>: the parameters of the
  delete statements among the calls added to the trace.
\<close>

definition deleted_ids :: "project \<Rightarrow> project \<Rightarrow> pyval list" where
  "deleted_ids st st' =
     concat (map write_params (filter is_delete (drop (length (trace st)) (trace st'))))"

text \<open>
  The write \<open>insert_or_replace\<close> makes for a task, given the direct fields and the resolved
  table name (\<open>set_command_of\<close> is the string its loop builds), and the write \<open>delete\<close>
  makes for an identifier.
\<close>

definition set_command_of :: "field list \<Rightarrow> pydict \<Rightarrow> string" where
  "set_command_of fs task = (case set_command_loop fs task [] of Inr s \<Rightarrow> s | Inl _ \<Rightarrow> [])"

definition upsert_event :: "field list \<Rightarrow> string \<Rightarrow> pydict \<Rightarrow> event" where
  "upsert_event fs tn task =
     DbWrite
       (INSERT_OR_REPLACE_TEMPLATE tn (join '','' (map sql_name fs))
          (join '','' (map (\<lambda>_. ''?'') fs)) (set_command_of fs task))
       (map (\<lambda>f. get_data_from_task f task) fs)"

definition delete_event :: "string \<Rightarrow> string \<Rightarrow> pyval \<Rightarrow> event" where
  "delete_event tn id_column task_id = DbWrite (DELETE_TEMPLATE tn id_column) [task_id]"

subsection \<open>The update-set\<close>

text \<open>
  The direct fields that get an assignment in the update-set of a task, the text of one
  assignment, and the condition under which the loop of \<open>insert_or_replace\<close> does not
  raise: every value it concatenates is a string.
\<close>

definition is_str :: "pyval \<Rightarrow> bool" where
  "is_str v = (case v of PStr s \<Rightarrow> True | _ \<Rightarrow> False)"

definition str_of :: "pyval \<Rightarrow> string" where
  "str_of v = (case v of PStr s \<Rightarrow> s | _ \<Rightarrow> [])"

definition update_fields :: "field list \<Rightarrow> pydict \<Rightarrow> field list" where
  "update_fields fs task = filter (\<lambda>f. truthy (get_data_from_task f task)) fs"

definition assignment :: "pydict \<Rightarrow> field \<Rightarrow> string" where
  "assignment task f = '' '' @ sql_name f @ '' = '' @ SQ @ str_of (get_data_from_task f task) @ SQ"

definition upsertable :: "field list \<Rightarrow> pydict \<Rightarrow> bool" where
  "upsertable fs task = list_all (\<lambda>f. is_str (get_data_from_task f task)) (update_fields fs task)"

text \<open>
  The standard SQL string literal of a value doubles every single quote in it. It is
  the yardstick for a well-formed literal; the source has no such function.
\<close>

definition sql_escape :: "string \<Rightarrow> string" where
  "sql_escape s = concat (map (\<lambda>c. if c = CHR 0x27 then [c, c] else [c]) s)"

subsection \<open>Reading an update-set\<close>

text \<open>
  What an SQL reader finds in the text after \<open>DO UPDATE SET\<close>: a list of assignments
  \<open>column = 'literal'\<close> separated by commas, blanks skipped, a column name made of letters,
  digits and underscores, a doubled single quote inside a literal standing for one
  quote. \<open>None\<close> is a text that is not of this form. The source has no such function; it
  is the yardstick for which columns an issued update-set assigns.
\<close>

definition is_space :: "char \<Rightarrow> bool" where
  "is_space c = (c = CHR '' '')"

definition is_word_char :: "char \<Rightarrow> bool" where
  "is_word_char c =
     (let n = (of_char c :: nat)
      in (48 \<le> n \<and> n \<le> 57) \<or> (65 \<le> n \<and> n \<le> 90) \<or> (97 \<le> n \<and> n \<le> 122) \<or> n = 95)"

fun read_literal :: "string \<Rightarrow> string \<Rightarrow> (string \<times> string) option" where
  "read_literal acc [] = None"
| "read_literal acc [c] = (if c = CHR 0x27 then Some (acc, []) else None)"
| "read_literal acc (c # d # cs) =
     (if c = CHR 0x27 then
        (if d = CHR 0x27 then read_literal (acc @ [c]) cs else Some (acc, d # cs))
      else read_literal (acc @ [c]) (d # cs))"

definition read_assignment :: "string \<Rightarrow> ((string \<times> string) \<times> string) option" where
  "read_assignment s =
     (let s1 = dropWhile is_space s;
          column = takeWhile is_word_char s1;
          s2 = dropWhile is_space (dropWhile is_word_char s1)
      in if column = [] then None
         else (case s2 of
                 [] \<Rightarrow> None
               | e # s3 \<Rightarrow>
                   if e \<noteq> CHR ''='' then None
                   else (case dropWhile is_space s3 of
                           [] \<Rightarrow> None
                         | q # s4 \<Rightarrow>
                             if q \<noteq> CHR 0x27 then None
                             else (case read_literal [] s4 of
                                     None \<Rightarrow> None
                                   | Some (v, rest) \<Rightarrow> Some ((column, v), rest)))))"

function read_update_set :: "string \<Rightarrow> (string \<times> string) list option" where
  "read_update_set s =
     (case read_assignment s of
        None \<Rightarrow> None
      | Some (a, rest) \<Rightarrow>
          (case dropWhile is_space rest of
             [] \<Rightarrow> Some [a]
           | c # rest' \<Rightarrow>
               if c = CHR '','' then map_option (\<lambda>as. a # as) (read_update_set rest')
               else None))"
  by pat_completeness auto
termination
proof (relation "measure length")
  show "wf (measure length)" by simp
next
  fix s :: string and x2 x y xa a list
  assume a: "read_assignment s = Some x2" "(x, y) = x2" "dropWhile is_space y = a # list"
  have lit: "length r < length t" if "read_literal acc t = Some (v, r)" for acc t v r
    using that by (induction acc t rule: read_literal.induct) (auto split: if_splits)
  have dw: "length (dropWhile P zs) \<le> length zs" for P and zs :: string
    by (induction zs) auto
  let ?s1 = "dropWhile is_space s"
  let ?s2 = "dropWhile is_space (dropWhile is_word_char ?s1)"
  from a(1,2) have "read_assignment s = Some (x, y)" by simp
  then obtain e s3 q s4 v where
    s2: "?s2 = e # s3" and s3: "dropWhile is_space s3 = q # s4"
    and l: "read_literal [] s4 = Some (v, y)"
    unfolding read_assignment_def Let_def
    by (auto split: list.splits if_splits option.splits simp del: dropWhile_eq_Nil_conv)
  from l have "length y < length s4" by (rule lit)
  also have "length s4 < length (dropWhile is_space s3)" by (simp add: s3)
  also have "\<dots> \<le> length s3" by (rule dw)
  also have "length s3 < length ?s2" by (simp add: s2)
  also have "\<dots> \<le> length (dropWhile is_word_char ?s1)" by (rule dw)
  also have "\<dots> \<le> length ?s1" by (rule dw)
  also have "\<dots> \<le> length s" by (rule dw)
  finally have "length y < length s" .
  moreover have "length (dropWhile is_space y) \<le> length y" by (rule dw)
  ultimately show "(list, s) \<in> measure length" using a(3) by simp
qed

declare read_update_set.simps [simp del]

text \<open>
  A column name an SQL reader takes as it is, and the text the loop of
  \<open>insert_or_replace\<close> writes for a column and a value.
\<close>

definition plain_column :: "string \<Rightarrow> bool" where
  "plain_column c = (c \<noteq> [] \<and> list_all is_word_char c)"

definition render_assignment :: "string \<times> string \<Rightarrow> string" where
  "render_assignment a = '' '' @ fst a @ '' = '' @ SQ @ snd a @ SQ"

subsection \<open>The flattened task list\<close>

text \<open>
  The sub-tasks the client gives for a task, the list \<open>_tasks\<close> builds from the top-level
  tasks, and the condition under which its loops do not raise: every top-level record
  has the key \<open>gid\<close> and every sub-task record the key \<open>name\<close>.
\<close>

definition sub_tasks_of :: "asana_client \<Rightarrow> string \<Rightarrow> pydict \<Rightarrow> pydict list" where
  "sub_tasks_of c fs task = subtasks c (py_get task ''gid'') fs"

definition flatten_tasks :: "asana_client \<Rightarrow> string \<Rightarrow> pydict list \<Rightarrow> pydict list" where
  "flatten_tasks c fs tops = tops @ concat (map (sub_tasks_of c fs) tops)"

definition has_key :: "string \<Rightarrow> pydict \<Rightarrow> bool" where
  "has_key k d = (map_of d k \<noteq> None)"

definition fetch_ok :: "asana_client \<Rightarrow> string \<Rightarrow> pydict list \<Rightarrow> bool" where
  "fetch_ok c fs tops =
     list_all (\<lambda>task. has_key ''gid'' task \<and> list_all (has_key ''name'') (sub_tasks_of c fs task)) tops"

subsection \<open>What a method may change\<close>

text \<open>
  \<open>resolved st tn\<close>: the table name is \<open>tn\<close> and \<open>table_name\<close> has nothing left to fetch,
  because a name is configured or the project metadata (with a string as name) is cached.
\<close>

definition cached_name :: "project \<Rightarrow> string \<Rightarrow> bool" where
  "cached_name st tn =
     (case project_data_cache st of
        None \<Rightarrow> False
      | Some d \<Rightarrow> (case map_of d ''name'' of
                     Some (PStr s) \<Rightarrow> tn = util_sql_safe_name st s
                   | _ \<Rightarrow> False))"

definition resolved :: "project \<Rightarrow> string \<Rightarrow> bool" where
  "resolved st tn =
     (case table_name_attr st of
        Some n \<Rightarrow> if n \<noteq> [] then tn = util_sql_safe_name st n else cached_name st tn
      | None \<Rightarrow> cached_name st tn)"

text \<open>
  No method changes the collaborators, the fields or the configuration (\<open>frame\<close>).
  \<open>step K P st st'\<close>: from \<open>st\<close> to \<open>st'\<close> the trace only grows, by calls that satisfy \<open>P\<close>,
  cached project metadata stays, and (for \<open>K\<close>) so does a filled task cache.
\<close>

definition frame :: "project \<Rightarrow> project \<Rightarrow> bool" where
  "frame st st' \<longleftrightarrow>
     asana_client st' = asana_client st \<and> db_client st' = db_client st
     \<and> util_sql_safe_name st' = util_sql_safe_name st
     \<and> direct_fields st' = direct_fields st \<and> indirect_fields st' = indirect_fields st
     \<and> project_id st' = project_id st \<and> table_name_attr st' = table_name_attr st"

definition step :: "bool \<Rightarrow> (event \<Rightarrow> bool) \<Rightarrow> project \<Rightarrow> project \<Rightarrow> bool" where
  "step K P st st' \<longleftrightarrow>
     frame st st'
     \<and> (\<exists>evs. trace st' = trace st @ evs \<and> list_all P evs)
     \<and> (\<forall>d. project_data_cache st = Some d \<longrightarrow> project_data_cache st' = Some d)
     \<and> (K \<longrightarrow> (\<forall>ts. task_cache st = Some ts \<longrightarrow> task_cache st' = Some ts))"

section \<open>Example data\<close>

text \<open>
  Modelled from the spec: \<open>util.sql_safe_name\<close> is not among the sources; the spec has it
  replace the characters that are illegal in an SQL identifier. This instance replaces
  every character other than a letter, a digit or an underscore (\<open>is_word_char\<close>) by an
  underscore; the examples run with it.
\<close>

definition sql_safe_name_spec :: "string \<Rightarrow> string" where
  "sql_safe_name_spec s = map (\<lambda>c. if is_word_char c then c else CHR ''_'') s"

text \<open>A direct field that copies one key of the task record, and an indirect field.\<close>

definition simple_field :: "string \<Rightarrow> string \<Rightarrow> field" where
  "simple_field name sql_type =
     \<lparr>sql_name = name, field_definition_sql = name @ '' '' @ sql_type,
      get_data_from_task = (\<lambda>task. py_get task name), required_fields = [name]\<rparr>"

definition followers_field :: field where
  "followers_field =
     \<lparr>sql_name = [], field_definition_sql = [],
      get_data_from_task = (\<lambda>task. PNone), required_fields = [''followers'']\<rparr>"

definition example_fields :: "field list" where
  "example_fields =
     [simple_field ''gid'' ''VARCHAR(32) PRIMARY KEY'',
      simple_field ''name'' ''VARCHAR(1024)'',
      followers_field]"

text \<open>
  Project 7 has the top-level tasks 2 and 3; task 4 is a sub-task of task 3. The table
  holds the rows 1, 2 and 3.
\<close>

definition task2 :: pydict where
  "task2 = [(''gid'', PStr ''2''), (''name'', PStr ''write'')]"

definition task3 :: pydict where
  "task3 = [(''gid'', PStr ''3''), (''name'', PStr ''review'')]"

definition task4 :: pydict where
  "task4 = [(''gid'', PStr ''4''), (''name'', PStr ''proofread'')]"

definition example_asana :: asana_client where
  "example_asana =
     \<lparr>find_by_id =
        (\<lambda>i. if i = 7 then Inr [(''gid'', PStr ''7''), (''name'', PStr ''Road map'')]
              else Inl NotFoundError),
      find_by_project = (\<lambda>i fs. if i = 7 then [task2, task3] else []),
      subtasks = (\<lambda>task_id fs. if task_id = PStr ''3'' then [task4] else [])\<rparr>"

definition example_db :: db_client where
  "example_db = \<lparr>db_read = (\<lambda>sql. [[PStr ''1''], [PStr ''2''], [PStr ''3'']])\<rparr>"

definition example_project :: project where
  "example_project =
     Project_init example_asana example_db sql_safe_name_spec
       \<lparr>cfg_project_id = 7, cfg_table_name = None\<rparr> example_fields"

definition missing_project :: project where
  "missing_project =
     Project_init example_asana example_db sql_safe_name_spec
       \<lparr>cfg_project_id = 8, cfg_table_name = None\<rparr> example_fields"

text \<open>A direct field whose column name differs from the key it copies.\<close>

definition column_field :: "string \<Rightarrow> string \<Rightarrow> string \<Rightarrow> field" where
  "column_field column key sql_type =
     \<lparr>sql_name = column, field_definition_sql = column @ '' '' @ sql_type,
      get_data_from_task = (\<lambda>task. py_get task key), required_fields = [key]\<rparr>"

text \<open>A project whose first direct field, the identifier field, is the column \<open>task_id\<close>.\<close>

definition id_column_project :: project where
  "id_column_project =
     Project_init example_asana example_db sql_safe_name_spec
       \<lparr>cfg_project_id = 7, cfg_table_name = Some ''tasks''\<rparr>
       [column_field ''task_id'' ''gid'' ''VARCHAR(32) PRIMARY KEY'',
        simple_field ''name'' ''VARCHAR(1024)'']"

text \<open>A project with a \<open>notes\<close> column and a \<open>completed\<close> column, and some task records.\<close>

definition notes_project :: project where
  "notes_project =
     Project_init example_asana example_db sql_safe_name_spec
       \<lparr>cfg_project_id = 7, cfg_table_name = Some ''tasks''\<rparr>
       [simple_field ''gid'' ''VARCHAR(32) PRIMARY KEY'',
        simple_field ''name'' ''VARCHAR(1024)'',
        simple_field ''notes'' ''TEXT'']"

definition completed_project :: project where
  "completed_project =
     Project_init example_asana example_db sql_safe_name_spec
       \<lparr>cfg_project_id = 7, cfg_table_name = Some ''tasks''\<rparr>
       [simple_field ''gid'' ''VARCHAR(32) PRIMARY KEY'',
        simple_field ''completed'' ''BOOLEAN'']"

definition task5 :: pydict where
  "task5 = [(''gid'', PStr ''5''), (''name'', PStr ''call''), (''notes'', PStr [])]"

definition task6 :: pydict where
  "task6 = [(''gid'', PStr ''6''), (''completed'', PInt 1)]"

definition task_quote :: pydict where
  "task_quote = [(''gid'', PStr ''8''), (''name'', PStr (''O'' @ SQ @ ''Brien''))]"

definition task_inject :: pydict where
  "task_inject = [(''gid'', PStr ''9''), (''name'', PStr (''x'' @ SQ @ '',  notes = '' @ SQ @ ''pwned''))]"

definition task_plain :: pydict where
  "task_plain = [(''gid'', PStr ''9''), (''name'', PStr ''x''), (''notes'', PStr ''pwned'')]"

text \<open>Projects with a configured table name: one with a blank in it, one empty.\<close>

definition named_project :: project where
  "named_project =
     Project_init example_asana example_db sql_safe_name_spec
       \<lparr>cfg_project_id = 7, cfg_table_name = Some ''my table''\<rparr> example_fields"

definition empty_name_project :: project where
  "empty_name_project =
     Project_init example_asana example_db (\<lambda>s. s)
       \<lparr>cfg_project_id = 7, cfg_table_name = Some []\<rparr> example_fields"

text \<open>
  A remote project whose only top-level task has no \<open>gid\<close>, and one whose task 3 has a
  sub-task without \<open>gid\<close>, over a table that holds a row with a null id.
\<close>

definition no_gid_task :: pydict where
  "no_gid_task = [(''name'', PStr ''draft'')]"

definition no_gid_top_project :: project where
  "no_gid_top_project =
     Project_init
       \<lparr>find_by_id = (\<lambda>i. Inr [(''name'', PStr ''P'')]),
        find_by_project = (\<lambda>i fs. [no_gid_task]),
        subtasks = (\<lambda>task_id fs. [])\<rparr>
       example_db sql_safe_name_spec
       \<lparr>cfg_project_id = 7, cfg_table_name = Some ''tasks''\<rparr> example_fields"

definition no_gid_sub_project :: project where
  "no_gid_sub_project =
     Project_init
       \<lparr>find_by_id = (\<lambda>i. Inr [(''name'', PStr ''P'')]),
        find_by_project = (\<lambda>i fs. [task3]),
        subtasks = (\<lambda>task_id fs. [no_gid_task])\<rparr>
       \<lparr>db_read = (\<lambda>sql. [[PNone], [PStr ''1''], [PStr ''3'']])\<rparr>
       sql_safe_name_spec
       \<lparr>cfg_project_id = 7, cfg_table_name = Some ''tasks''\<rparr> example_fields"

definition null_id_project :: project where
  "null_id_project =
     Project_init
       \<lparr>find_by_id = (\<lambda>i. Inr [(''name'', PStr ''P'')]),
        find_by_project = (\<lambda>i fs. [task3]),
        subtasks = (\<lambda>task_id fs. [])\<rparr>
       \<lparr>db_read = (\<lambda>sql. [[PNone], [PStr ''1''], [PStr ''3'']])\<rparr>
       sql_safe_name_spec
       \<lparr>cfg_project_id = 7, cfg_table_name = Some ''tasks''\<rparr> example_fields"

text \<open>The example project over a table that holds the rows 2, 3, 4 and 5.\<close>

definition stored_sub_task_project :: project where
  "stored_sub_task_project =
     Project_init example_asana
       \<lparr>db_read = (\<lambda>sql. [[PStr ''2''], [PStr ''3''], [PStr ''4''], [PStr ''5'']])\<rparr>
       sql_safe_name_spec
       \<lparr>cfg_project_id = 7, cfg_table_name = None\<rparr> example_fields"

section \<open>Properties of the methods\<close>

lemma step_refl: "step K P st st"
  by (simp add: step_def frame_def)

lemma step_trans: "step K P a b \<Longrightarrow> step K P b c \<Longrightarrow> step K P a c"
  unfolding step_def frame_def
  by (elim conjE exE) simp

lemma step_mono: "step K P a b \<Longrightarrow> (\<And>e. P e \<Longrightarrow> Q e) \<Longrightarrow> step K Q a b"
  unfolding step_def by (auto simp: list_all_iff)

lemma step_bindM:
  assumes "step K P st (snd (m st))" and "\<And>x st1. step K P st1 (snd (f x st1))"
  shows "step K P st (snd (bindM m f st))"
proof (cases "m st")
  case (Pair r st1)
  show ?thesis
  proof (cases r)
    case (Inl e)
    with Pair assms(1) show ?thesis by (simp add: bindM_def)
  next
    case (Inr x)
    with Pair have "snd (bindM m f st) = snd (f x st1)" by (simp add: bindM_def)
    moreover from Pair assms(1) have "step K P st st1" by simp
    ultimately show ?thesis using assms(2) [of st1 x] by (auto intro: step_trans)
  qed
qed

lemma step_for_each:
  "(\<And>x st1. x \<in> set xs \<Longrightarrow> step K P st1 (snd (f x st1))) \<Longrightarrow>
   step K P st (snd (for_each f xs st))"
proof (induction xs arbitrary: st)
  case Nil
  show ?case by (simp add: step_refl)
next
  case (Cons x xs)
  show ?case
    unfolding for_each.simps
  proof (rule step_bindM)
    show "step K P st (snd (f x st))" by (rule Cons.prems) simp
  next
    fix u st1
    show "step K P st1 (snd (for_each f xs st1))"
      by (rule Cons.IH) (rule Cons.prems, simp)
  qed
qed

lemma step_emit: "P e \<Longrightarrow> step K P st (snd (emit e st))"
  by (simp add: step_def frame_def emit_def)

lemma step_project_data: "step K (\<lambda>e. \<not> is_write e) st (snd (project_data st))"
  by (simp add: project_data_def step_def frame_def Let_def
           split: option.splits sum.splits api_error.splits)

lemma step_project_name: "step K (\<lambda>e. \<not> is_write e) st (snd (project_name st))"
  unfolding project_name_def
  by (rule step_bindM) (simp_all add: step_project_data step_refl split: option.splits)

lemma step_table_name: "step K (\<lambda>e. \<not> is_write e) st (snd (table_name st))"
proof -
  have "snd (table_name st) = st \<or> snd (table_name st) = snd (project_name st)"
    by (simp add: table_name_def split: option.splits prod.splits sum.splits pyval.splits)
  then show ?thesis
    by (auto simp: step_refl step_project_name)
qed

lemma append_sub_tasks_ok:
  "list_all (has_key ''name'') ss \<Longrightarrow>
   append_sub_tasks ss st =
     (Inr (), st\<lparr>task_cache := map_option (\<lambda>c. c @ ss) (task_cache st)\<rparr>)"
proof (induction ss arbitrary: st)
  case Nil
  show ?case by (simp add: option.map_ident)
next
  case (Cons s ss)
  then show ?case
    by (cases "task_cache st") (auto simp: has_key_def)
qed

lemma append_sub_tasks_fail:
  "\<not> list_all (has_key ''name'') ss \<Longrightarrow> \<exists>e. fst (append_sub_tasks ss st) = Inl e"
  by (induction ss arbitrary: st) (auto simp: has_key_def split: option.splits)

lemma append_sub_tasks_frame:
  "\<exists>tc. snd (append_sub_tasks ss st) = st\<lparr>task_cache := tc\<rparr>"
proof (induction ss arbitrary: st)
  case Nil
  show ?case by (simp, rule exI [of _ "task_cache st"], simp)
next
  case (Cons s ss)
  show ?case
  proof (cases "map_of s ''name''")
    case None
    then show ?thesis by (simp, intro exI [of _ "task_cache st"], simp)
  next
    case (Some v)
    from Cons.IH [of "st\<lparr>task_cache := map_option (\<lambda>c. c @ [s]) (task_cache st)\<rparr>"]
    obtain tc where "snd (append_sub_tasks ss
        (st\<lparr>task_cache := map_option (\<lambda>c. c @ [s]) (task_cache st)\<rparr>)) =
        st\<lparr>task_cache := map_option (\<lambda>c. c @ [s]) (task_cache st)\<rparr>\<lparr>task_cache := tc\<rparr>"
      by blast
    with Some show ?thesis by (simp, blast)
  qed
qed

lemma fields_param_upd [simp]:
  "fields_param (st\<lparr>trace := tr\<rparr>) = fields_param st"
  "fields_param (st\<lparr>task_cache := tc\<rparr>) = fields_param st"
  "fields_param (st\<lparr>project_data_cache := pc\<rparr>) = fields_param st"
  by (simp_all add: fields_param_def Project_required_fields_def)

lemma fields_param_frame: "frame st st' \<Longrightarrow> fields_param st' = fields_param st"
  by (simp add: frame_def fields_param_def Project_required_fields_def)

lemma expand_tasks_ok:
  "fetch_ok (asana_client st) (fields_param st) ts \<Longrightarrow>
   expand_tasks ts st =
     (Inr (),
      st\<lparr>task_cache :=
            map_option (\<lambda>c. c @ concat (map (sub_tasks_of (asana_client st) (fields_param st)) ts))
              (task_cache st),
         trace := trace st @ map (\<lambda>t. Subtasks (py_get t ''gid'') (fields_param st)) ts\<rparr>)"
proof (induction ts arbitrary: st)
  case Nil
  show ?case by (simp add: option.map_ident)
next
  case (Cons t ts)
  from Cons.prems obtain g where g: "map_of t ''gid'' = Some g"
    by (auto simp: fetch_ok_def has_key_def)
  then have pg: "py_get t ''gid'' = g" by (simp add: py_get_def)
  let ?F = "fields_param st"
  let ?st1 = "st\<lparr>trace := trace st @ [Subtasks g ?F]\<rparr>"
  let ?subs = "subtasks (asana_client st) g ?F"
  let ?st2 = "?st1\<lparr>task_cache := map_option (\<lambda>c. c @ ?subs) (task_cache ?st1)\<rparr>"
  from Cons.prems pg have "list_all (has_key ''name'') ?subs"
    by (simp add: fetch_ok_def sub_tasks_of_def)
  then have a: "append_sub_tasks ?subs ?st1 = (Inr (), ?st2)"
    by (rule append_sub_tasks_ok)
  have F2: "fields_param ?st2 = ?F"
    by simp
  from Cons.prems have "fetch_ok (asana_client ?st2) (fields_param ?st2) ts"
    by (simp add: fetch_ok_def)
  from Cons.IH [OF this] have ih: "expand_tasks ts ?st2 =
     (Inr (),
      ?st2\<lparr>task_cache :=
            map_option (\<lambda>c. c @ concat (map (sub_tasks_of (asana_client st) ?F) ts))
              (task_cache ?st2),
         trace := trace ?st2 @ map (\<lambda>t. Subtasks (py_get t ''gid'') ?F) ts\<rparr>)"
    by (simp add: F2)
  have "expand_tasks (t # ts) st = expand_tasks ts ?st2"
    using g a by (simp add: bindM_def)
  also note ih
  also have "(Inr (),
      ?st2\<lparr>task_cache :=
            map_option (\<lambda>c. c @ concat (map (sub_tasks_of (asana_client st) ?F) ts))
              (task_cache ?st2),
         trace := trace ?st2 @ map (\<lambda>t. Subtasks (py_get t ''gid'') ?F) ts\<rparr>) =
     (Inr (),
      st\<lparr>task_cache :=
            map_option (\<lambda>c. c @ concat (map (sub_tasks_of (asana_client st) ?F) (t # ts)))
              (task_cache st),
         trace := trace st @ map (\<lambda>t. Subtasks (py_get t ''gid'') ?F) (t # ts)\<rparr>)"
    using pg by (cases "task_cache st") (simp_all add: sub_tasks_of_def)
  finally show ?case .
qed

lemma step_append_sub_tasks: "step False P st (snd (append_sub_tasks ss st))"
proof -
  obtain tc where "snd (append_sub_tasks ss st) = st\<lparr>task_cache := tc\<rparr>"
    using append_sub_tasks_frame by blast
  then show ?thesis by (simp add: step_def frame_def)
qed

lemma step_expand_tasks: "step False (\<lambda>e. \<not> is_write e) st (snd (expand_tasks ts st))"
proof (induction ts arbitrary: st)
  case Nil
  show ?case by (simp add: step_refl)
next
  case (Cons t ts)
  show ?case
  proof (cases "map_of t ''gid''")
    case None
    then show ?thesis by (simp add: step_refl)
  next
    case (Some g)
    let ?st1 = "st\<lparr>trace := trace st @ [Subtasks g (fields_param st)]\<rparr>"
    have a: "step False (\<lambda>e. \<not> is_write e) st ?st1"
      by (simp add: step_def frame_def)
    have b: "step False (\<lambda>e. \<not> is_write e) ?st1
       (snd (bindM (append_sub_tasks (subtasks (asana_client st) g (fields_param st)))
               (\<lambda>_. expand_tasks ts) ?st1))"
      by (rule step_bindM) (rule step_append_sub_tasks, rule Cons.IH)
    from Some step_trans [OF a b] show ?thesis by simp
  qed
qed

lemma expand_tasks_fail:
  "\<not> fetch_ok (asana_client st) (fields_param st) ts \<Longrightarrow> \<exists>e. fst (expand_tasks ts st) = Inl e"
proof (induction ts arbitrary: st)
  case Nil
  then show ?case by (simp add: fetch_ok_def)
next
  case (Cons t ts)
  show ?case
  proof (cases "map_of t ''gid''")
    case None
    then show ?thesis by simp
  next
    case (Some g)
    then have pg: "py_get t ''gid'' = g" by (simp add: py_get_def)
    let ?F = "fields_param st"
    let ?st1 = "st\<lparr>trace := trace st @ [Subtasks g ?F]\<rparr>"
    let ?subs = "subtasks (asana_client st) g ?F"
    show ?thesis
    proof (cases "list_all (has_key ''name'') ?subs")
      case False
      then obtain e where "fst (append_sub_tasks ?subs ?st1) = Inl e"
        using append_sub_tasks_fail by blast
      then have "fst (bindM (append_sub_tasks ?subs) (\<lambda>_. expand_tasks ts) ?st1) = Inl e"
        by (cases "append_sub_tasks ?subs ?st1") (simp add: bindM_def)
      with Some show ?thesis by simp
    next
      case True
      let ?st2 = "?st1\<lparr>task_cache := map_option (\<lambda>c. c @ ?subs) (task_cache ?st1)\<rparr>"
      from True have a: "append_sub_tasks ?subs ?st1 = (Inr (), ?st2)"
        by (rule append_sub_tasks_ok)
      from Cons.prems True Some pg
      have "\<not> fetch_ok (asana_client ?st2) (fields_param ?st2) ts"
        by (simp add: fetch_ok_def has_key_def sub_tasks_of_def)
      from Cons.IH [OF this] obtain e where "fst (expand_tasks ts ?st2) = Inl e" ..
      moreover have "expand_tasks (t # ts) st = expand_tasks ts ?st2"
        using Some a by (simp add: bindM_def)
      ultimately show ?thesis by simp
    qed
  qed
qed

lemma tasks_cached: "task_cache st = Some ts \<Longrightarrow> tasks st = (Inr ts, st)"
  by (simp add: tasks_def)

lemma tasks_fresh_ok:
  assumes "task_cache st = None"
    and "fetch_ok (asana_client st) (fields_param st)
           (find_by_project (asana_client st) (project_id st) (fields_param st))"
  shows "tasks st =
     (Inr (flatten_tasks (asana_client st) (fields_param st)
             (find_by_project (asana_client st) (project_id st) (fields_param st))),
      st\<lparr>task_cache :=
            Some (flatten_tasks (asana_client st) (fields_param st)
                    (find_by_project (asana_client st) (project_id st) (fields_param st))),
         trace := trace st
           @ [FindByProject (project_id st) (fields_param st),
              FindByProject (project_id st) (fields_param st)]
           @ map (\<lambda>t. Subtasks (py_get t ''gid'') (fields_param st))
               (find_by_project (asana_client st) (project_id st) (fields_param st))\<rparr>)"
proof -
  let ?F = "fields_param st"
  let ?tops = "find_by_project (asana_client st) (project_id st) ?F"
  let ?fetch = "FindByProject (project_id st) ?F"
  let ?st2 = "st\<lparr>task_cache := Some ?tops, trace := trace st @ [?fetch]\<rparr>
                \<lparr>trace := trace (st\<lparr>task_cache := Some ?tops, trace := trace st @ [?fetch]\<rparr>) @ [?fetch]\<rparr>"
  from assms(2) have "fetch_ok (asana_client ?st2) (fields_param ?st2) ?tops" by simp
  from expand_tasks_ok [OF this] assms(1) show ?thesis
    by (simp add: tasks_def Let_def bindM_def flatten_tasks_def)
qed

lemma tasks_fresh_fail:
  assumes "task_cache st = None"
    and "\<not> fetch_ok (asana_client st) (fields_param st)
           (find_by_project (asana_client st) (project_id st) (fields_param st))"
  shows "\<exists>e. fst (tasks st) = Inl e"
proof -
  let ?F = "fields_param st"
  let ?tops = "find_by_project (asana_client st) (project_id st) ?F"
  let ?fetch = "FindByProject (project_id st) ?F"
  let ?st2 = "st\<lparr>task_cache := Some ?tops, trace := trace st @ [?fetch]\<rparr>
                \<lparr>trace := trace (st\<lparr>task_cache := Some ?tops, trace := trace st @ [?fetch]\<rparr>) @ [?fetch]\<rparr>"
  from assms(2) have "\<not> fetch_ok (asana_client ?st2) (fields_param ?st2) ?tops" by simp
  from expand_tasks_fail [OF this] obtain e where e: "fst (expand_tasks ?tops ?st2) = Inl e" ..
  then have "fst (tasks st) = Inl e"
    using assms(1)
    by (cases "expand_tasks ?tops ?st2") (simp add: tasks_def Let_def bindM_def)
  then show ?thesis ..
qed

lemma step_tasks: "step True (\<lambda>e. \<not> is_write e) st (snd (tasks st))"
proof (cases "task_cache st")
  case (Some ts)
  then show ?thesis by (simp add: tasks_cached step_refl)
next
  case None
  let ?F = "fields_param st"
  let ?tops = "find_by_project (asana_client st) (project_id st) ?F"
  let ?fetch = "FindByProject (project_id st) ?F"
  let ?st2 = "st\<lparr>task_cache := Some ?tops, trace := trace st @ [?fetch]\<rparr>
                \<lparr>trace := trace (st\<lparr>task_cache := Some ?tops, trace := trace st @ [?fetch]\<rparr>) @ [?fetch]\<rparr>"
  have a: "step False (\<lambda>e. \<not> is_write e) st ?st2"
    by (simp add: step_def frame_def)
  have b: "step False (\<lambda>e. \<not> is_write e) ?st2 (snd (expand_tasks ?tops ?st2))"
    by (rule step_expand_tasks)
  have "snd (tasks st) = snd (expand_tasks ?tops ?st2)"
    using None by (cases "expand_tasks ?tops ?st2")
      (simp add: tasks_def Let_def bindM_def split: sum.splits)
  with step_trans [OF a b] have "step False (\<lambda>e. \<not> is_write e) st (snd (tasks st))"
    by simp
  with None show ?thesis by (simp add: step_def)
qed

lemma tasks_result_cached:
  assumes "fst (tasks st) = Inr ts"
  shows "task_cache (snd (tasks st)) = Some ts"
proof (cases "task_cache st")
  case (Some c)
  with assms show ?thesis by (simp add: tasks_cached)
next
  case None
  show ?thesis
  proof (cases "fetch_ok (asana_client st) (fields_param st)
           (find_by_project (asana_client st) (project_id st) (fields_param st))")
    case True
    from tasks_fresh_ok [OF None True] assms show ?thesis by simp
  next
    case False
    from tasks_fresh_fail [OF None False] assms show ?thesis by auto
  qed
qed

lemma cached_name_upd [simp]:
  "cached_name (st\<lparr>trace := tr\<rparr>) tn = cached_name st tn"
  "cached_name (st\<lparr>task_cache := tc\<rparr>) tn = cached_name st tn"
  by (simp_all add: cached_name_def split: option.splits pyval.splits)

lemma resolved_upd [simp]:
  "resolved (st\<lparr>trace := tr\<rparr>) tn = resolved st tn"
  "resolved (st\<lparr>task_cache := tc\<rparr>) tn = resolved st tn"
  by (simp_all add: resolved_def split: option.splits)

lemma resolved_table_name: "resolved st tn \<Longrightarrow> table_name st = (Inr tn, st)"
  by (auto simp: resolved_def cached_name_def table_name_def project_name_def bindM_def
        project_data_def split: option.splits if_splits pyval.splits)

lemma resolved_step: "resolved st tn \<Longrightarrow> step K P st st' \<Longrightarrow> resolved st' tn"
  by (auto simp: resolved_def cached_name_def step_def frame_def
        split: option.splits if_splits pyval.splits)

lemma join_Cons: "join sep (x # xs) = x @ concat (map (\<lambda>y. sep @ y) xs)"
  by (induction xs arbitrary: x) simp_all

lemma assignment_str:
  "get_data_from_task f task = PStr s \<Longrightarrow>
   assignment task f = '' '' @ sql_name f @ '' = '' @ SQ @ s @ SQ"
  by (simp add: assignment_def str_of_def)

lemma set_command_loop_acc:
  "upsertable fs task \<Longrightarrow> acc \<noteq> [] \<Longrightarrow>
   set_command_loop fs task acc =
     Inr (acc @ concat (map (\<lambda>a. '', '' @ a) (map (assignment task) (update_fields fs task))))"
proof (induction fs arbitrary: acc)
  case Nil
  show ?case by (simp add: update_fields_def)
next
  case (Cons f fs)
  show ?case
  proof (cases "truthy (get_data_from_task f task)")
    case False
    with Cons show ?thesis by (simp add: update_fields_def upsertable_def)
  next
    case True
    with Cons.prems obtain s where s: "get_data_from_task f task = PStr s"
      by (cases "get_data_from_task f task") (simp_all add: update_fields_def upsertable_def is_str_def)
    from Cons.prems True have u: "upsertable fs task"
      by (simp add: update_fields_def upsertable_def)
    from Cons.IH [OF u, of "acc @ '', '' @ '' '' @ sql_name f @ '' = '' @ SQ @ s @ SQ"]
    show ?thesis
      using True s Cons.prems(2)
      by (simp add: update_fields_def assignment_str)
  qed
qed

lemma set_command_loop_ok:
  "upsertable fs task \<Longrightarrow>
   set_command_loop fs task [] = Inr (join '', '' (map (assignment task) (update_fields fs task)))"
proof (induction fs)
  case Nil
  show ?case by (simp add: update_fields_def)
next
  case (Cons f fs)
  show ?case
  proof (cases "truthy (get_data_from_task f task)")
    case False
    with Cons show ?thesis by (simp add: update_fields_def upsertable_def)
  next
    case True
    with Cons.prems obtain s where s: "get_data_from_task f task = PStr s"
      by (cases "get_data_from_task f task") (simp_all add: update_fields_def upsertable_def is_str_def)
    from Cons.prems True have u: "upsertable fs task"
      by (simp add: update_fields_def upsertable_def)
    from set_command_loop_acc [OF u, of "'' '' @ sql_name f @ '' = '' @ SQ @ s @ SQ"]
    show ?thesis
      using True s
      by (simp add: update_fields_def assignment_str join_Cons)
  qed
qed

lemma set_command_loop_type_error:
  "\<not> upsertable fs task \<Longrightarrow> set_command_loop fs task acc = Inl TypeError"
proof (induction fs arbitrary: acc)
  case Nil
  then show ?case by (simp add: update_fields_def upsertable_def)
next
  case (Cons f fs)
  show ?case
  proof (cases "truthy (get_data_from_task f task)")
    case False
    with Cons show ?thesis by (simp add: update_fields_def upsertable_def)
  next
    case True
    show ?thesis
    proof (cases "get_data_from_task f task")
      case (PStr s)
      with Cons.prems True have "\<not> upsertable fs task"
        by (simp add: update_fields_def upsertable_def is_str_def)
      from Cons.IH [OF this] PStr True show ?thesis by simp
    qed (use True in simp_all)
  qed
qed

lemma set_command_of_ok:
  "upsertable fs task \<Longrightarrow>
   set_command_of fs task = join '', '' (map (assignment task) (update_fields fs task))"
  by (simp add: set_command_of_def set_command_loop_ok)

lemma insert_or_replace_type_error:
  "\<not> upsertable (direct_fields st) task \<Longrightarrow> insert_or_replace task st = (Inl TypeError, st)"
  by (simp add: insert_or_replace_def set_command_loop_type_error)

lemma insert_or_replace_table_name:
  "upsertable (direct_fields st) task \<Longrightarrow>
   insert_or_replace task st =
     bindM table_name (\<lambda>tn. emit (upsert_event (direct_fields st) tn task)) st"
  by (simp add: insert_or_replace_def set_command_loop_ok upsert_event_def set_command_of_def)

lemma insert_or_replace_resolved:
  "resolved st tn \<Longrightarrow> upsertable (direct_fields st) task \<Longrightarrow>
   insert_or_replace task st =
     (Inr (), st\<lparr>trace := trace st @ [upsert_event (direct_fields st) tn task]\<rparr>)"
  by (simp add: insert_or_replace_table_name resolved_table_name bindM_def emit_def)

lemma is_upsert_upsert_event [simp]: "is_upsert (upsert_event fs tn task)"
  by (simp add: upsert_event_def INSERT_OR_REPLACE_TEMPLATE_def)

lemma is_delete_upsert_event [simp]: "\<not> is_delete (upsert_event fs tn task)"
  by (simp add: upsert_event_def INSERT_OR_REPLACE_TEMPLATE_def)

lemma is_delete_delete_event [simp]: "is_delete (delete_event tn col i)"
  by (simp add: delete_event_def DELETE_TEMPLATE_def)

lemma is_upsert_delete_event [simp]: "\<not> is_upsert (delete_event tn col i)"
  by (simp add: delete_event_def DELETE_TEMPLATE_def)

lemma write_params_delete_event [simp]: "write_params (delete_event tn col i) = [i]"
  by (simp add: delete_event_def)

lemma step_insert_or_replace:
  "step K (\<lambda>e. is_write e \<longrightarrow> is_upsert e) st (snd (insert_or_replace task st))"
proof (cases "upsertable (direct_fields st) task")
  case False
  then show ?thesis by (simp add: insert_or_replace_type_error step_refl)
next
  case True
  show ?thesis
    unfolding insert_or_replace_table_name [OF True]
    by (rule step_bindM)
       (rule step_mono [OF step_table_name], simp, rule step_emit, simp)
qed

lemma table_name_resolves:
  assumes "fst (table_name st) = Inr tn"
  shows "resolved (snd (table_name st)) tn"
proof (cases "\<exists>n. table_name_attr st = Some n \<and> n \<noteq> []")
  case True
  with assms show ?thesis
    by (auto simp: table_name_def resolved_def)
next
  case False
  then have tn: "table_name st =
     (case project_name st of
        (Inl e, st') \<Rightarrow> (Inl e, st')
      | (Inr (PStr s), st') \<Rightarrow> (Inr (util_sql_safe_name st' s), st')
      | (Inr _, st') \<Rightarrow> (Inl TypeError, st'))"
    by (auto simp: table_name_def split: option.splits)
  show ?thesis
  proof (cases "project_data_cache st")
    case (Some d)
    with assms tn False show ?thesis
      by (auto simp: project_name_def bindM_def project_data_def resolved_def cached_name_def
            split: option.splits pyval.splits)
  next
    case None
    with assms tn False show ?thesis
      by (auto simp: project_name_def bindM_def project_data_def resolved_def cached_name_def
            Let_def split: option.splits pyval.splits sum.splits api_error.splits)
  qed
qed

lemma delete_resolved:
  "resolved st tn \<Longrightarrow> direct_fields st = idf # fs \<Longrightarrow>
   delete i st = (Inr (), st\<lparr>trace := trace st @ [delete_event tn (sql_name idf) i]\<rparr>)"
  by (simp add: delete_def bindM_def id_field_def resolved_table_name emit_def delete_event_def)

lemma step_id_field: "step K P st (snd (id_field st))"
  by (simp add: id_field_def step_refl split: list.splits)

lemma step_delete:
  "step K (\<lambda>e. is_write e \<longrightarrow> is_delete e \<and> write_params e = [i]) st (snd (delete i st))"
  unfolding delete_def
  apply (rule step_bindM)
   apply (rule step_id_field)
  apply (rule step_bindM)
   apply (rule step_mono [OF step_table_name])
   apply simp
  apply (rule step_emit)
  apply (simp add: DELETE_TEMPLATE_def)
  done

lemma for_each_insert_resolved:
  "resolved st tn \<Longrightarrow> fst (for_each insert_or_replace ts st) = Inr () \<Longrightarrow>
   for_each insert_or_replace ts st =
     (Inr (), st\<lparr>trace := trace st @ map (upsert_event (direct_fields st) tn) ts\<rparr>)"
proof (induction ts arbitrary: st)
  case Nil
  show ?case by simp
next
  case (Cons t ts)
  have u: "upsertable (direct_fields st) t"
  proof (rule ccontr)
    assume "\<not> upsertable (direct_fields st) t"
    then have "insert_or_replace t st = (Inl TypeError, st)"
      by (rule insert_or_replace_type_error)
    with Cons.prems(2) show False by (simp add: bindM_def)
  qed
  let ?st1 = "st\<lparr>trace := trace st @ [upsert_event (direct_fields st) tn t]\<rparr>"
  from Cons.prems(1) u have i: "insert_or_replace t st = (Inr (), ?st1)"
    by (rule insert_or_replace_resolved)
  then have e: "for_each insert_or_replace (t # ts) st = for_each insert_or_replace ts ?st1"
    by (simp add: bindM_def)
  from Cons.prems(1) have r: "resolved ?st1 tn" by simp
  from Cons.prems(2) e have "fst (for_each insert_or_replace ts ?st1) = Inr ()" by simp
  from Cons.IH [OF r this] e show ?case by simp
qed

lemma for_each_delete_resolved:
  "resolved st tn \<Longrightarrow> direct_fields st = idf # fs \<Longrightarrow>
   for_each delete ids st =
     (Inr (), st\<lparr>trace := trace st @ map (delete_event tn (sql_name idf)) ids\<rparr>)"
proof (induction ids arbitrary: st)
  case Nil
  show ?case by simp
next
  case (Cons i ids)
  let ?st1 = "st\<lparr>trace := trace st @ [delete_event tn (sql_name idf) i]\<rparr>"
  from Cons.prems have d: "delete i st = (Inr (), ?st1)"
    by (rule delete_resolved)
  from Cons.prems have "resolved ?st1 tn" "direct_fields ?st1 = idf # fs" by simp_all
  from Cons.IH [OF this] d show ?case by (simp add: bindM_def)
qed

lemma db_writes_append [simp]: "db_writes (xs @ ys) = db_writes xs @ db_writes ys"
  by (simp add: db_writes_def)

lemma db_writes_none: "list_all (\<lambda>e. \<not> is_write e) evs \<Longrightarrow> db_writes evs = []"
  by (induction evs) (simp_all add: db_writes_def)

lemma db_writes_upserts [simp]: "db_writes (map (upsert_event fs tn) ts) = map (upsert_event fs tn) ts"
  by (induction ts) (simp_all add: db_writes_def upsert_event_def)

lemma db_writes_deletes [simp]: "db_writes (map (delete_event tn col) ids) = map (delete_event tn col) ids"
  by (induction ids) (simp_all add: db_writes_def delete_event_def)

lemma step_quiet_writes:
  "step K (\<lambda>e. \<not> is_write e) st st' \<Longrightarrow> db_writes (trace st') = db_writes (trace st)"
  by (auto simp: step_def db_writes_none)

lemma step_db_task_ids: "step K (\<lambda>e. \<not> is_write e) st (snd (db_task_ids st))"
  unfolding db_task_ids_def
  apply (rule step_bindM)
   apply (rule step_id_field)
  apply (rule step_bindM)
   apply (rule step_table_name)
  apply (simp add: Let_def step_def frame_def split: sum.splits)
  done

lemma db_task_ids_ok:
  assumes "fst (db_task_ids st) = Inr ids"
  shows "\<exists>idf fs tn raw.
           direct_fields st = idf # fs \<and> fst (table_name st) = Inr tn
           \<and> first_columns (db_read (db_client st) (SELECT_TEMPLATE (sql_name idf) tn)) = Inr raw
           \<and> ids = remdups raw \<and> resolved (snd (db_task_ids st)) tn"
proof (cases "direct_fields st")
  case Nil
  with assms show ?thesis by (simp add: db_task_ids_def bindM_def id_field_def)
next
  case (Cons idf fs)
  obtain r st0 where tn: "table_name st = (r, st0)" by (cases "table_name st")
  show ?thesis
  proof (cases r)
    case (Inl e)
    with assms Cons tn show ?thesis by (simp add: db_task_ids_def bindM_def id_field_def)
  next
    case (Inr tn')
    with tn have res: "resolved st0 tn'"
      using table_name_resolves [of st tn'] by simp
    from step_table_name [of False st] tn have "db_client st0 = db_client st"
      by (simp add: step_def frame_def)
    with assms Cons tn Inr res show ?thesis
      by (auto simp: db_task_ids_def bindM_def id_field_def Let_def split: sum.splits)
  qed
qed

lemma step_for_each_insert:
  "step K (\<lambda>e. is_write e \<longrightarrow> is_upsert e) st (snd (for_each insert_or_replace ts st))"
  by (rule step_for_each) (rule step_insert_or_replace)

lemma step_for_each_delete:
  "step K (\<lambda>e. is_write e \<longrightarrow> is_delete e \<and> (\<exists>i\<in>set ids. write_params e = [i])) st
     (snd (for_each delete ids st))"
proof (rule step_for_each)
  fix i st1
  assume "i \<in> set ids"
  then show "step K (\<lambda>e. is_write e \<longrightarrow> is_delete e \<and> (\<exists>i\<in>set ids. write_params e = [i])) st1
     (snd (delete i st1))"
    by (intro step_mono [OF step_delete [of K i st1]]) auto
qed

lemma for_each_insert_ok:
  assumes "fst (for_each insert_or_replace (t # ts) st) = Inr ()"
  shows "\<exists>tn. resolved (snd (for_each insert_or_replace (t # ts) st)) tn
           \<and> db_writes (trace (snd (for_each insert_or_replace (t # ts) st))) =
               db_writes (trace st) @ map (upsert_event (direct_fields st) tn) (t # ts)"
proof -
  have u: "upsertable (direct_fields st) t"
  proof (rule ccontr)
    assume "\<not> upsertable (direct_fields st) t"
    then have "insert_or_replace t st = (Inl TypeError, st)"
      by (rule insert_or_replace_type_error)
    with assms show False by (simp add: bindM_def)
  qed
  obtain r st0 where tn: "table_name st = (r, st0)" by (cases "table_name st")
  from step_table_name [of False st] tn have s0: "step False (\<lambda>e. \<not> is_write e) st st0" by simp
  then have df: "direct_fields st0 = direct_fields st" by (simp add: step_def frame_def)
  from s0 have w0: "db_writes (trace st0) = db_writes (trace st)" by (rule step_quiet_writes)
  show ?thesis
  proof (cases r)
    case (Inl e)
    with tn u assms show ?thesis
      by (simp add: insert_or_replace_table_name bindM_def)
  next
    case (Inr tn')
    with tn have res: "resolved st0 tn'" using table_name_resolves [of st tn'] by simp
    let ?st1 = "st0\<lparr>trace := trace st0 @ [upsert_event (direct_fields st) tn' t]\<rparr>"
    from tn Inr u have i: "insert_or_replace t st = (Inr (), ?st1)"
      by (simp add: insert_or_replace_table_name bindM_def emit_def)
    then have e: "for_each insert_or_replace (t # ts) st = for_each insert_or_replace ts ?st1"
      by (simp add: bindM_def)
    from res have r1: "resolved ?st1 tn'" by simp
    from assms e have "fst (for_each insert_or_replace ts ?st1) = Inr ()" by simp
    from for_each_insert_resolved [OF r1 this] e
    have "for_each insert_or_replace (t # ts) st =
       (Inr (), ?st1\<lparr>trace := trace ?st1 @ map (upsert_event (direct_fields ?st1) tn') ts\<rparr>)"
      by simp
    with res df w0 show ?thesis
      by (intro exI [of _ tn']) (simp add: db_writes_def upsert_event_def)
  qed
qed

lemma asana_task_ids_tasks:
  "asana_task_ids st =
     (case tasks st of
        (Inl e, st') \<Rightarrow> (Inl e, st')
      | (Inr ts, st') \<Rightarrow> (Inr (remdups (map (\<lambda>task. py_get task ''gid'') ts)), st'))"
  by (simp add: asana_task_ids_def bindM_def split: prod.splits sum.splits)

lemma synchronize_db_fail:
  "db_task_ids st = (Inl e, st1) \<Longrightarrow> synchronize st = (Inl e, st1)"
  by (simp add: synchronize_def bindM_def)

lemma synchronize_tasks_fail:
  "db_task_ids st = (Inr db_ids, st1) \<Longrightarrow> tasks st1 = (Inl e, st2) \<Longrightarrow>
   synchronize st = (Inl e, st2)"
  by (simp add: synchronize_def bindM_def asana_task_ids_tasks)

lemma synchronize_unfold:
  assumes "db_task_ids st = (Inr db_ids, st1)" and "tasks st1 = (Inr ts, st2)"
  shows "synchronize st =
     bindM (for_each insert_or_replace ts)
       (\<lambda>_. for_each delete
               (difference db_ids (remdups (map (\<lambda>task. py_get task ''gid'') ts)))) st2"
proof -
  from assms(2) have "task_cache st2 = Some ts"
    using tasks_result_cached [of st1 ts] by simp
  then have "tasks st2 = (Inr ts, st2)" by (rule tasks_cached)
  with assms show ?thesis
    by (simp add: synchronize_def bindM_def asana_task_ids_tasks Let_def)
qed

lemma synchronize_ok:
  assumes "fst (synchronize st) = Inr ()"
  shows "\<exists>idf fs tn raw ts.
           direct_fields st = idf # fs
           \<and> resolved (snd (synchronize st)) tn
           \<and> first_columns (db_read (db_client st) (SELECT_TEMPLATE (sql_name idf) tn)) = Inr raw
           \<and> task_cache (snd (synchronize st)) = Some ts
           \<and> db_writes (trace (snd (synchronize st))) =
               db_writes (trace st)
               @ map (upsert_event (direct_fields st) tn) ts
               @ map (delete_event tn (sql_name idf))
                   (difference (remdups raw) (remdups (map (\<lambda>task. py_get task ''gid'') ts)))"
proof -
  obtain r1 st1 where d: "db_task_ids st = (r1, st1)" by (cases "db_task_ids st")
  from assms d obtain db_ids where r1: "r1 = Inr db_ids"
    by (cases r1) (simp_all add: synchronize_db_fail)
  from db_task_ids_ok [of st db_ids] d r1 obtain idf fs tn raw where
    df: "direct_fields st = idf # fs" and
    raw: "first_columns (db_read (db_client st) (SELECT_TEMPLATE (sql_name idf) tn)) = Inr raw" and
    ids: "db_ids = remdups raw" and res1: "resolved st1 tn"
    by auto
  from step_db_task_ids [of True st] d have s1: "step True (\<lambda>e. \<not> is_write e) st st1" by simp
  obtain r2 st2 where t: "tasks st1 = (r2, st2)" by (cases "tasks st1")
  from assms d r1 t obtain ts where r2: "r2 = Inr ts"
    by (cases r2) (simp_all add: synchronize_tasks_fail)
  from step_tasks [of st1] t have s2: "step True (\<lambda>e. \<not> is_write e) st1 st2" by simp
  from res1 s2 have res2: "resolved st2 tn" by (rule resolved_step)
  from s1 s2 have df2: "direct_fields st2 = idf # fs" by (simp add: step_def frame_def df)
  from s1 s2 have w2: "db_writes (trace st2) = db_writes (trace st)"
    by (simp add: step_quiet_writes)
  from t r2 have tc2: "task_cache st2 = Some ts" using tasks_result_cached [of st1 ts] by simp
  let ?dels = "difference db_ids (remdups (map (\<lambda>task. py_get task ''gid'') ts))"
  from d r1 t r2 have u: "synchronize st =
     bindM (for_each insert_or_replace ts) (\<lambda>_. for_each delete ?dels) st2"
    by (simp add: synchronize_unfold)
  have f: "fst (for_each insert_or_replace ts st2) = Inr ()"
  proof (cases "for_each insert_or_replace ts st2")
    case (Pair r st3)
    with assms u show ?thesis by (cases r) (simp_all add: bindM_def)
  qed
  let ?st3 = "st2\<lparr>trace := trace st2 @ map (upsert_event (direct_fields st2) tn) ts\<rparr>"
  from for_each_insert_resolved [OF res2 f]
  have i: "for_each insert_or_replace ts st2 = (Inr (), ?st3)" .
  from res2 df2 have "resolved ?st3 tn" "direct_fields ?st3 = idf # fs" by simp_all
  from for_each_delete_resolved [OF this, of ?dels] u i
  have "synchronize st =
     (Inr (), ?st3\<lparr>trace := trace ?st3 @ map (delete_event tn (sql_name idf)) ?dels\<rparr>)"
    by (simp add: bindM_def)
  with df df2 raw ids res2 tc2 w2 show ?thesis
    by (intro exI [of _ idf] exI [of _ fs] exI [of _ tn] exI [of _ raw] exI [of _ ts]) simp
qed


lemmas example_defs =
  example_project_def missing_project_def Project_init_def example_fields_def simple_field_def
  followers_field_def add_field_def example_asana_def example_db_def task2_def task3_def
  task4_def sql_safe_name_spec_def is_word_char_def

lemmas method_defs =
  synchronize_def export_def db_task_ids_def asana_task_ids_def tasks_def bindM_def emit_def
  id_field_def table_name_def project_name_def project_data_def insert_or_replace_def
  delete_def fields_param_def Project_required_fields_def py_get_def difference_def Let_def
  INSERT_OR_REPLACE_TEMPLATE_def DELETE_TEMPLATE_def SELECT_TEMPLATE_def

lemmas more_example_defs =
  column_field_def id_column_project_def notes_project_def completed_project_def task5_def
  task6_def task_quote_def task_inject_def task_plain_def named_project_def
  empty_name_project_def no_gid_task_def no_gid_top_project_def no_gid_sub_project_def
  null_id_project_def stored_sub_task_project_def

section \<open>Synchronization\<close>

lemma is_delete_not_upsert: "is_delete e \<Longrightarrow> \<not> is_upsert e"
  by (cases e) auto

lemma is_delete_is_write: "is_delete e \<Longrightarrow> is_write e"
  by (cases e) auto

lemma step_traceD:
  "step K P st st' \<Longrightarrow> \<exists>evs. trace st' = trace st @ evs \<and> list_all P evs"
  by (simp add: step_def)

lemma step_cacheD:
  "step True P st st' \<Longrightarrow> task_cache st = Some ts \<Longrightarrow> task_cache st' = Some ts"
  by (simp add: step_def)

lemma step_fieldsD: "step K P st st' \<Longrightarrow> direct_fields st' = direct_fields st"
  by (simp add: step_def frame_def)

lemma for_each_insert_upsertable:
  "fst (for_each insert_or_replace ts st) = Inr () \<Longrightarrow> list_all (upsertable (direct_fields st)) ts"
proof (induction ts arbitrary: st)
  case Nil
  show ?case by simp
next
  case (Cons t ts)
  have u: "upsertable (direct_fields st) t"
  proof (rule ccontr)
    assume "\<not> upsertable (direct_fields st) t"
    then have "insert_or_replace t st = (Inl TypeError, st)"
      by (rule insert_or_replace_type_error)
    with Cons.prems show False by (simp add: bindM_def)
  qed
  obtain r st1 where i: "insert_or_replace t st = (r, st1)" by (cases "insert_or_replace t st")
  from step_insert_or_replace [of False st t] i have "direct_fields st1 = direct_fields st"
    by (simp add: step_fieldsD)
  moreover from Cons.prems i have "fst (for_each insert_or_replace ts st1) = Inr ()"
    by (cases r) (simp_all add: bindM_def)
  ultimately show ?case using Cons.IH [of st1] u by simp
qed

lemma set_difference [simp]: "set (difference a b) = set a - set b"
  by (auto simp: difference_def)

lemma distinct_difference: "distinct a \<Longrightarrow> distinct (difference a b)"
  by (simp add: difference_def)

text \<open>
  Claim C1. A run of \<open>synchronize\<close> that returns normally has written, after what was
  written before it, one upsert statement for each fetched task (the task cache, in its
  order, whether or not the task's id is already in the table) and then one delete
  statement for each identifier of \<open>idsInDb - idsRemote\<close>, each once: \<open>idsInDb\<close> are the
  first columns of the rows read with the select statement on the identifier column,
  \<open>idsRemote\<close> the \<open>gid\<close> of every fetched task. In the example the table holds 1, 2, 3
  and the fetch gives 2, 3, 4: the tasks 2, 3 and 4 are written with the insert-or-update
  statement and only 1 is deleted.
\<close>

theorem synchronize_upserts_all_deletes_difference:
  assumes "fst (synchronize st) = Inr ()"
  shows "\<exists>idf fs tn raw ts dels.
           direct_fields st = idf # fs
           \<and> table_name (snd (synchronize st)) = (Inr tn, snd (synchronize st))
           \<and> first_columns (db_read (db_client st) (SELECT_TEMPLATE (sql_name idf) tn)) = Inr raw
           \<and> task_cache (snd (synchronize st)) = Some ts
           \<and> db_writes (trace (snd (synchronize st))) =
               db_writes (trace st)
               @ map (upsert_event (direct_fields st) tn) ts
               @ map (delete_event tn (sql_name idf)) dels
           \<and> distinct dels
           \<and> set dels = set raw - (\<lambda>task. py_get task ''gid'') ` set ts"
proof -
  from synchronize_ok [OF assms] obtain idf fs tn raw ts where
    a: "direct_fields st = idf # fs" and
    b: "resolved (snd (synchronize st)) tn" and
    c: "first_columns (db_read (db_client st) (SELECT_TEMPLATE (sql_name idf) tn)) = Inr raw" and
    d: "task_cache (snd (synchronize st)) = Some ts" and
    e: "db_writes (trace (snd (synchronize st))) =
          db_writes (trace st)
          @ map (upsert_event (direct_fields st) tn) ts
          @ map (delete_event tn (sql_name idf))
              (difference (remdups raw) (remdups (map (\<lambda>task. py_get task ''gid'') ts)))"
    by blast
  let ?dels = "difference (remdups raw) (remdups (map (\<lambda>task. py_get task ''gid'') ts))"
  have "distinct ?dels" by (simp add: distinct_difference)
  moreover have "set ?dels = set raw - (\<lambda>task. py_get task ''gid'') ` set ts" by simp
  moreover from b have "table_name (snd (synchronize st)) = (Inr tn, snd (synchronize st))"
    by (rule resolved_table_name)
  ultimately show ?thesis using a c d e by blast
qed

lemma example_synchronize_ok: "fst (synchronize example_project) = Inr ()"
  by (simp add: example_defs method_defs)

theorem synchronize_upserts_all_deletes_difference_witness:
  \<open>fst (synchronize example_project) = Inr ()
   \<and> task_cache (snd (synchronize example_project)) = Some [task2, task3, task4]
   \<and> db_writes (trace (snd (synchronize example_project))) =
       [DbWrite ''INSERT INTO "Road_map" (gid,name) VALUES (?,?) ON CONFLICT (gid) DO UPDATE SET  gid = '2',  name = 'write';''
          [PStr ''2'', PStr ''write''],
        DbWrite ''INSERT INTO "Road_map" (gid,name) VALUES (?,?) ON CONFLICT (gid) DO UPDATE SET  gid = '3',  name = 'review';''
          [PStr ''3'', PStr ''review''],
        DbWrite ''INSERT INTO "Road_map" (gid,name) VALUES (?,?) ON CONFLICT (gid) DO UPDATE SET  gid = '4',  name = 'proofread';''
          [PStr ''4'', PStr ''proofread''],
        DbWrite ''DELETE FROM "Road_map" WHERE gid = ?;'' [PStr ''1'']]\<close>
proof -
  note ok = example_synchronize_ok
  from synchronize_upserts_all_deletes_difference [OF ok]
  obtain ts where ts: "task_cache (snd (synchronize example_project)) = Some ts"
    by blast
  show ?thesis
    by (simp add: example_defs method_defs db_writes_def)
qed

lemma synchronize_phases:
  "\<exists>st2. step True (\<lambda>e. \<not> is_write e) st st2
     \<and> (snd (synchronize st) = st2
        \<or> (\<exists>ts db_ids. task_cache st2 = Some ts
              \<and> synchronize st =
                  bindM (for_each insert_or_replace ts)
                    (\<lambda>_. for_each delete
                            (difference db_ids (remdups (map (\<lambda>task. py_get task ''gid'') ts))))
                    st2))"
proof -
  obtain r1 st1 where d: "db_task_ids st = (r1, st1)" by (cases "db_task_ids st")
  from step_db_task_ids [of True st] d have s1: "step True (\<lambda>e. \<not> is_write e) st st1" by simp
  show ?thesis
  proof (cases r1)
    case (Inl e)
    with d have "snd (synchronize st) = st1" by (simp add: synchronize_db_fail)
    with s1 show ?thesis by blast
  next
    case (Inr db_ids)
    obtain r2 st2 where t: "tasks st1 = (r2, st2)" by (cases "tasks st1")
    from step_tasks [of st1] t have "step True (\<lambda>e. \<not> is_write e) st1 st2" by simp
    with s1 have s2: "step True (\<lambda>e. \<not> is_write e) st st2" by (rule step_trans)
    show ?thesis
    proof (cases r2)
      case (Inl e)
      with d Inr t have "snd (synchronize st) = st2" by (simp add: synchronize_tasks_fail)
      with s2 show ?thesis by blast
    next
      case r2: (Inr ts)
      with t have "task_cache st2 = Some ts" using tasks_result_cached [of st1 ts] by simp
      moreover from d Inr t r2 have "synchronize st =
          bindM (for_each insert_or_replace ts)
            (\<lambda>_. for_each delete
                    (difference db_ids (remdups (map (\<lambda>task. py_get task ''gid'') ts)))) st2"
        by (simp add: synchronize_unfold)
      ultimately show ?thesis using s2 by blast
    qed
  qed
qed

text \<open>
  Claim C2. In every run of \<open>synchronize\<close>, also one that ends with an exception, the
  calls it makes split into a first part with no delete statement and a second part
  with no upsert statement: every upsert is issued before any delete. No delete
  statement carries the \<open>gid\<close> of a fetched task, so an identifier that is both stored
  and fetched is never deleted.
\<close>

theorem synchronize_upserts_before_deletes:
  "\<exists>ups dels.
     trace (snd (synchronize st)) = trace st @ ups @ dels
     \<and> list_all (\<lambda>e. \<not> is_delete e) ups
     \<and> list_all (\<lambda>e. \<not> is_upsert e) dels
     \<and> (\<forall>ts. task_cache (snd (synchronize st)) = Some ts \<longrightarrow>
           (\<forall>task\<in>set ts. \<forall>e\<in>set dels. is_delete e \<longrightarrow> write_params e \<noteq> [py_get task ''gid'']))"
proof -
  from synchronize_phases [of st] obtain st2 where
    s2: "step True (\<lambda>e. \<not> is_write e) st st2" and
    alt: "snd (synchronize st) = st2
        \<or> (\<exists>ts db_ids. task_cache st2 = Some ts
              \<and> synchronize st =
                  bindM (for_each insert_or_replace ts)
                    (\<lambda>_. for_each delete
                            (difference db_ids (remdups (map (\<lambda>task. py_get task ''gid'') ts))))
                    st2)"
    by blast
  from step_traceD [OF s2] obtain evA where
    A: "trace st2 = trace st @ evA" "list_all (\<lambda>e. \<not> is_write e) evA" by blast
  then have A': "list_all (\<lambda>e. \<not> is_delete e) evA"
    by (auto simp: list_all_iff dest: is_delete_is_write)
  from alt show ?thesis
  proof
    assume "snd (synchronize st) = st2"
    with A A' have "trace (snd (synchronize st)) = trace st @ evA @ []
        \<and> list_all (\<lambda>e. \<not> is_delete e) evA \<and> list_all (\<lambda>e. \<not> is_upsert e) []
        \<and> (\<forall>ts. task_cache (snd (synchronize st)) = Some ts \<longrightarrow>
           (\<forall>task\<in>set ts. \<forall>e\<in>set []. is_delete e \<longrightarrow> write_params e \<noteq> [py_get task ''gid'']))"
      by simp
    then show ?thesis by blast
  next
    assume "\<exists>ts db_ids. task_cache st2 = Some ts
              \<and> synchronize st =
                  bindM (for_each insert_or_replace ts)
                    (\<lambda>_. for_each delete
                            (difference db_ids (remdups (map (\<lambda>task. py_get task ''gid'') ts))))
                    st2"
    then obtain ts db_ids where
      tc: "task_cache st2 = Some ts" and
      u: "synchronize st =
            bindM (for_each insert_or_replace ts)
              (\<lambda>_. for_each delete
                      (difference db_ids (remdups (map (\<lambda>task. py_get task ''gid'') ts)))) st2"
      by blast
    let ?ids = "difference db_ids (remdups (map (\<lambda>task. py_get task ''gid'') ts))"
    obtain r3 st3 where i: "for_each insert_or_replace ts st2 = (r3, st3)"
      by (cases "for_each insert_or_replace ts st2")
    from step_for_each_insert [of True st2 ts] i
    have s3: "step True (\<lambda>e. is_write e \<longrightarrow> is_upsert e) st2 st3" by simp
    from step_traceD [OF s3] obtain evB where
      B: "trace st3 = trace st2 @ evB" "list_all (\<lambda>e. is_write e \<longrightarrow> is_upsert e) evB" by blast
    then have B': "list_all (\<lambda>e. \<not> is_delete e) evB"
      by (auto simp: list_all_iff dest: is_delete_is_write is_delete_not_upsert)
    from step_cacheD [OF s3 tc] have tc3: "task_cache st3 = Some ts" .
    show ?thesis
    proof (cases r3)
      case (Inl e)
      with u i have "snd (synchronize st) = st3" by (simp add: bindM_def)
      with A A' B B' have "trace (snd (synchronize st)) = trace st @ (evA @ evB) @ []
        \<and> list_all (\<lambda>e. \<not> is_delete e) (evA @ evB) \<and> list_all (\<lambda>e. \<not> is_upsert e) []
        \<and> (\<forall>ts. task_cache (snd (synchronize st)) = Some ts \<longrightarrow>
           (\<forall>task\<in>set ts. \<forall>e\<in>set []. is_delete e \<longrightarrow> write_params e \<noteq> [py_get task ''gid'']))"
        by simp
      then show ?thesis by blast
    next
      case (Inr x)
      with u i have st4: "snd (synchronize st) = snd (for_each delete ?ids st3)"
        by (simp add: bindM_def)
      from step_for_each_delete [of True ?ids st3]
      have s4: "step True
          (\<lambda>e. is_write e \<longrightarrow> is_delete e \<and> (\<exists>i\<in>set ?ids. write_params e = [i]))
          st3 (snd (for_each delete ?ids st3))" .
      from step_traceD [OF s4] obtain evC where
        C: "trace (snd (for_each delete ?ids st3)) = trace st3 @ evC"
           "list_all (\<lambda>e. is_write e \<longrightarrow> is_delete e \<and> (\<exists>i\<in>set ?ids. write_params e = [i])) evC"
        by blast
      from C(2) have C1: "list_all (\<lambda>e. \<not> is_upsert e) evC"
        by (auto simp: list_all_iff dest: is_delete_not_upsert intro: ccontr)
           (metis is_delete_not_upsert is_upsert.elims(2) is_write.simps(1))
      from step_cacheD [OF s4 tc3] st4 have tc4: "task_cache (snd (synchronize st)) = Some ts"
        by simp
      have C2: "\<forall>task\<in>set ts. \<forall>e\<in>set evC. is_delete e \<longrightarrow> write_params e \<noteq> [py_get task ''gid'']"
      proof (intro ballI impI notI)
        fix task e
        assume task: "task \<in> set ts" and e: "e \<in> set evC" and del: "is_delete e"
          and eq: "write_params e = [py_get task ''gid'']"
        from del have "is_write e" by (rule is_delete_is_write)
        with C(2) e obtain i where "i \<in> set ?ids" "write_params e = [i]"
          by (auto simp: list_all_iff)
        with eq task show False by auto
      qed
      from st4 A B C have "trace (snd (synchronize st)) = trace st @ (evA @ evB) @ evC" by simp
      with A' B' C1 C2 tc4 show ?thesis
        by (intro exI [of _ "evA @ evB"] exI [of _ evC]) simp
    qed
  qed
qed

theorem synchronize_upserts_before_deletes_witness:
  "task_cache (snd (synchronize example_project)) = Some [task2, task3, task4]
   \<and> map is_upsert (db_writes (trace (snd (synchronize example_project))))
       = [True, True, True, False]
   \<and> map is_delete (db_writes (trace (snd (synchronize example_project))))
       = [False, False, False, True]
   \<and> map write_params (filter is_delete (trace (snd (synchronize example_project))))
       = [[PStr ''1'']]"
proof -
  from synchronize_upserts_before_deletes [of example_project]
  obtain ups dels where
    "trace (snd (synchronize example_project)) = trace example_project @ ups @ dels"
    by blast
  show ?thesis
    by (simp add: example_defs method_defs db_writes_def)
qed

section \<open>Export\<close>

lemma export_unfold:
  "export st =
     (case tasks st of
        (Inl e, st1) \<Rightarrow> (Inl e, st1)
      | (Inr ts, st1) \<Rightarrow> for_each insert_or_replace ts st1)"
  by (simp add: export_def bindM_def split: prod.splits sum.splits)

lemma step_export: "step True (\<lambda>e. is_write e \<longrightarrow> is_upsert e) st (snd (export st))"
  unfolding export_def
  by (rule step_bindM) (rule step_mono [OF step_tasks], simp, rule step_for_each_insert)

lemma export_ok:
  assumes "fst (export st) = Inr ()"
  shows "\<exists>ts tn. fst (tasks st) = Inr ts
           \<and> task_cache (snd (export st)) = Some ts
           \<and> db_writes (trace (snd (export st))) =
               db_writes (trace st) @ map (upsert_event (direct_fields st) tn) ts
           \<and> (ts \<noteq> [] \<longrightarrow> table_name (snd (export st)) = (Inr tn, snd (export st)))"
proof -
  obtain r1 st1 where t: "tasks st = (r1, st1)" by (cases "tasks st")
  from assms t obtain ts where r1: "r1 = Inr ts"
    by (cases r1) (simp_all add: export_unfold)
  from t r1 have e: "export st = for_each insert_or_replace ts st1"
    by (simp add: export_unfold)
  from step_tasks [of st] t have s1: "step True (\<lambda>e. \<not> is_write e) st st1" by simp
  then have w1: "db_writes (trace st1) = db_writes (trace st)" by (rule step_quiet_writes)
  from s1 have f1: "direct_fields st1 = direct_fields st" by (rule step_fieldsD)
  from t r1 have tc1: "task_cache st1 = Some ts" using tasks_result_cached [of st ts] by simp
  from step_for_each_insert [of True st1 ts] e
  have "step True (\<lambda>e. is_write e \<longrightarrow> is_upsert e) st1 (snd (export st))" by simp
  from step_cacheD [OF this tc1] have tc: "task_cache (snd (export st)) = Some ts" .
  show ?thesis
  proof (cases ts)
    case Nil
    with e w1 tc t r1 show ?thesis by simp
  next
    case (Cons a as)
    from assms e Cons have "fst (for_each insert_or_replace (a # as) st1) = Inr ()" by simp
    from for_each_insert_ok [OF this] obtain tn where
      "resolved (snd (for_each insert_or_replace (a # as) st1)) tn" and
      "db_writes (trace (snd (for_each insert_or_replace (a # as) st1))) =
         db_writes (trace st1) @ map (upsert_event (direct_fields st1) tn) (a # as)"
      by blast
    with e Cons w1 f1 have
      "resolved (snd (export st)) tn" and
      "db_writes (trace (snd (export st))) =
         db_writes (trace st) @ map (upsert_event (direct_fields st) tn) ts"
      by simp_all
    with tc t r1 show ?thesis
      by (intro exI [of _ ts] exI [of _ tn]) (simp add: resolved_table_name)
  qed
qed

text \<open>
  Claim C5. In every run of \<open>export\<close> no delete statement is issued, and every statement
  written is an upsert. A run that returns normally has written exactly one upsert per
  fetched task, in order, each carrying the values of that task: no statement is
  addressed to a row whose id is not in the current fetch.
\<close>

theorem export_upserts_and_never_deletes:
  "(\<exists>evs. trace (snd (export st)) = trace st @ evs
          \<and> list_all (\<lambda>e. \<not> is_delete e) evs
          \<and> list_all (\<lambda>e. is_write e \<longrightarrow> is_upsert e) evs)
   \<and> (fst (export st) = Inr () \<longrightarrow>
        (\<exists>ts tn. task_cache (snd (export st)) = Some ts
           \<and> db_writes (trace (snd (export st))) =
               db_writes (trace st) @ map (upsert_event (direct_fields st) tn) ts
           \<and> (ts \<noteq> [] \<longrightarrow> table_name (snd (export st)) = (Inr tn, snd (export st)))))"
proof
  from step_traceD [OF step_export [of st]] obtain evs where
    evs: "trace (snd (export st)) = trace st @ evs"
         "list_all (\<lambda>e. is_write e \<longrightarrow> is_upsert e) evs"
    by blast
  then have "list_all (\<lambda>e. \<not> is_delete e) evs"
    by (auto simp: list_all_iff dest: is_delete_is_write is_delete_not_upsert)
  with evs show "\<exists>evs. trace (snd (export st)) = trace st @ evs
          \<and> list_all (\<lambda>e. \<not> is_delete e) evs
          \<and> list_all (\<lambda>e. is_write e \<longrightarrow> is_upsert e) evs"
    by blast
next
  show "fst (export st) = Inr () \<longrightarrow>
        (\<exists>ts tn. task_cache (snd (export st)) = Some ts
           \<and> db_writes (trace (snd (export st))) =
               db_writes (trace st) @ map (upsert_event (direct_fields st) tn) ts
           \<and> (ts \<noteq> [] \<longrightarrow> table_name (snd (export st)) = (Inr tn, snd (export st))))"
    using export_ok [of st] by blast
qed

theorem export_upserts_and_never_deletes_witness:
  \<open>fst (export example_project) = Inr ()
   \<and> db_read (db_client example_project) ''SELECT gid FROM "Road_map";''
       = [[PStr ''1''], [PStr ''2''], [PStr ''3'']]
   \<and> task_cache (snd (export example_project)) = Some [task2, task3, task4]
   \<and> filter is_delete (trace (snd (export example_project))) = []
   \<and> map write_params (db_writes (trace (snd (export example_project)))) =
       [[PStr ''2'', PStr ''write''], [PStr ''3'', PStr ''review''],
        [PStr ''4'', PStr ''proofread'']]
   \<and> map is_upsert (db_writes (trace (snd (export example_project)))) = [True, True, True]\<close>
proof -
  from export_upserts_and_never_deletes [of example_project]
  obtain evs where "trace (snd (export example_project)) = trace example_project @ evs"
    by blast
  show ?thesis
    by (simp add: example_defs method_defs db_writes_def)
qed

section \<open>Project metadata: the not-found exception and the cache\<close>

lemma project_data_cached:
  "project_data_cache st = Some d \<Longrightarrow> project_data st = (Inr d, st)"
  by (simp add: project_data_def)

lemma project_data_fresh:
  "project_data_cache st = None \<Longrightarrow>
   project_data st =
     (case find_by_id (asana_client st) (project_id st) of
        Inl NotFoundError \<Rightarrow>
          (Inl (NoSuchProjectException (project_id st)),
           st\<lparr>trace := trace st @ [FindById (project_id st)]\<rparr>)
      | Inl e \<Rightarrow> (Inl (AsanaError e), st\<lparr>trace := trace st @ [FindById (project_id st)]\<rparr>)
      | Inr d \<Rightarrow> (Inr d, st\<lparr>trace := trace st @ [FindById (project_id st)],
                            project_data_cache := Some d\<rparr>))"
  by (simp add: project_data_def Let_def split: sum.splits api_error.splits)

text \<open>
  Claim C8. The first access to the project metadata (the cache is still empty) raises
  \<open>NoSuchProjectException\<close> exactly when the client reports \<open>NotFoundError\<close> for the
  configured project id. A successful access leaves the metadata in the cache, and an
  access with the metadata cached returns it and changes nothing: the trace gets no new
  call, so nothing is fetched again.
\<close>

theorem project_data_not_found_and_cached:
  "(project_data_cache st = None \<longrightarrow>
      (fst (project_data st) = Inl (NoSuchProjectException (project_id st))
         \<longleftrightarrow> find_by_id (asana_client st) (project_id st) = Inl NotFoundError))
   \<and> (\<forall>d. fst (project_data st) = Inr d \<longrightarrow>
          project_data_cache (snd (project_data st)) = Some d
          \<and> project_data (snd (project_data st)) = (Inr d, snd (project_data st)))
   \<and> (\<forall>d. project_data_cache st = Some d \<longrightarrow> project_data st = (Inr d, st))"
proof (cases "project_data_cache st")
  case None
  show ?thesis
  proof (cases "find_by_id (asana_client st) (project_id st)")
    case (Inl e)
    with None show ?thesis
      by (cases e) (simp_all add: project_data_fresh)
  next
    case (Inr d)
    with None show ?thesis
      by (simp add: project_data_fresh project_data_cached)
  qed
next
  case (Some d)
  then show ?thesis
    by (simp add: project_data_cached)
qed

theorem project_data_not_found_and_cached_witness:
  "project_data_cache example_project = None
   \<and> fst (project_data example_project)
       = Inr [(''gid'', PStr ''7''), (''name'', PStr ''Road map'')]
   \<and> project_data_cache (snd (project_data example_project))
       = Some [(''gid'', PStr ''7''), (''name'', PStr ''Road map'')]
   \<and> trace (snd (project_data (snd (project_data example_project)))) = [FindById 7]
   \<and> find_by_id (asana_client missing_project) (project_id missing_project) = Inl NotFoundError
   \<and> fst (project_data missing_project) = Inl (NoSuchProjectException 8)"
  using project_data_not_found_and_cached [of example_project]
    project_data_not_found_and_cached [of missing_project]
  by (simp add: example_defs project_data_def)

section \<open>The upsert statement, the identifier column and the table name\<close>

lemma for_each_single: "for_each f [x] st = f x st"
  by (cases "f x st") (auto simp: bindM_def split: sum.splits)

lemma length_sql_escape:
  "length (sql_escape s) = length s + length (filter (\<lambda>c. c = CHR 0x27) s)"
  by (induction s) (simp_all add: sql_escape_def)

lemma sql_escape_id: "sql_escape s = s \<longleftrightarrow> CHR 0x27 \<notin> set s"
proof
  assume "sql_escape s = s"
  then have "length (sql_escape s) = length s" by simp
  then have "filter (\<lambda>c. c = CHR 0x27) s = []" by (simp add: length_sql_escape)
  then show "CHR 0x27 \<notin> set s" by (auto simp: filter_empty_conv)
next
  assume "CHR 0x27 \<notin> set s"
  then show "sql_escape s = s" by (induction s) (auto simp: sql_escape_def)
qed

lemma not_upsertable_iff:
  "\<not> upsertable fs task \<longleftrightarrow>
   (\<exists>f\<in>set fs. truthy (get_data_from_task f task) \<and> \<not> is_str (get_data_from_task f task))"
  by (auto simp: upsertable_def update_fields_def list_all_iff)

lemma read_literal_step:
  "c \<noteq> CHR 0x27 \<Longrightarrow> xs \<noteq> [] \<Longrightarrow> read_literal acc (c # xs) = read_literal (acc @ [c]) xs"
  by (cases xs) simp_all

lemma read_literal_plain:
  "CHR 0x27 \<notin> set v \<Longrightarrow> rest = [] \<or> hd rest \<noteq> CHR 0x27 \<Longrightarrow>
   read_literal acc (v @ SQ @ rest) = Some (acc @ v, rest)"
proof (induction v arbitrary: acc)
  case Nil
  then show ?case by (cases rest) auto
next
  case (Cons c v)
  from Cons.prems have c: "c \<noteq> CHR 0x27" and v: "CHR 0x27 \<notin> set v" by auto
  have ne: "v @ SQ @ rest \<noteq> []" by simp
  have "read_literal acc ((c # v) @ SQ @ rest) = read_literal acc (c # (v @ SQ @ rest))"
    by simp
  also have "\<dots> = read_literal (acc @ [c]) (v @ SQ @ rest)"
    by (rule read_literal_step [OF c ne])
  also have "\<dots> = Some ((acc @ [c]) @ v, rest)"
    by (rule Cons.IH [OF v Cons.prems(2)])
  finally show ?case by simp
qed

lemma not_word_char_space [simp]: "\<not> is_word_char CHR '' ''"
  by (simp add: is_word_char_def)

lemma read_assignment_rendered:
  assumes "plain_column c" and "CHR 0x27 \<notin> set v" and "rest = [] \<or> hd rest = CHR '',''"
  shows "read_assignment (render_assignment (c, v) @ rest) = Some ((c, v), rest)"
proof -
  from assms(1) obtain x xs where c: "c = x # xs" and w: "\<forall>y\<in>set c. is_word_char y"
    by (cases c) (auto simp: plain_column_def list_all_iff)
  then have x: "\<not> is_space x" by (auto simp: is_space_def)
  let ?tail = "'' = '' @ SQ @ v @ SQ @ rest"
  have s1: "dropWhile is_space (render_assignment (c, v) @ rest) = c @ ?tail"
    using x by (simp add: render_assignment_def c is_space_def)
  have t: "takeWhile is_word_char (c @ ?tail) = c"
    using w by (simp add: takeWhile_append2)
  have d: "dropWhile is_word_char (c @ ?tail) = ?tail"
    using w by (simp add: dropWhile_append2)
  from assms(3) have r: "rest = [] \<or> hd rest \<noteq> CHR 0x27" by auto
  have l: "read_literal [] (v @ SQ @ rest) = Some (v, rest)"
    using read_literal_plain [OF assms(2) r, of "[]"] by simp
  show ?thesis
    unfolding read_assignment_def Let_def s1 t d
    using l by (simp add: is_space_def c)
qed

lemma read_assignment_space: "read_assignment (CHR '' '' # s) = read_assignment s"
  by (simp add: read_assignment_def is_space_def)

lemma read_update_set_space: "read_update_set (CHR '' '' # s) = read_update_set s"
  by (subst read_update_set.simps, subst (2) read_update_set.simps)
     (simp only: read_assignment_space)

lemma read_update_set_last:
  "read_assignment s = Some (a, []) \<Longrightarrow> read_update_set s = Some [a]"
  by (subst read_update_set.simps) simp

lemma read_update_set_step:
  "read_assignment s = Some (a, CHR '','' # rest) \<Longrightarrow> read_update_set rest = Some as \<Longrightarrow>
   read_update_set s = Some (a # as)"
  by (subst read_update_set.simps) (simp add: is_space_def)

lemma read_update_set_rendered:
  assumes "\<forall>a\<in>set (x # xs). plain_column (fst a) \<and> CHR 0x27 \<notin> set (snd a)"
  shows "read_update_set
           (render_assignment x @ concat (map (\<lambda>y. '', '' @ render_assignment y) xs))
         = Some (x # xs)"
  using assms
proof (induction xs arbitrary: x)
  case Nil
  then have "read_assignment (render_assignment (fst x, snd x) @ []) = Some ((fst x, snd x), [])"
    by (intro read_assignment_rendered) simp_all
  then show ?case
    by (subst read_update_set.simps) simp
next
  case (Cons y ys)
  let ?rest = "concat (map (\<lambda>y. '', '' @ render_assignment y) (y # ys))"
  let ?next = "render_assignment y @ concat (map (\<lambda>y. '', '' @ render_assignment y) ys)"
  have rest: "?rest = CHR '','' # CHR '' '' # ?next" by simp
  from Cons.prems
  have "read_assignment (render_assignment (fst x, snd x) @ ?rest) = Some ((fst x, snd x), ?rest)"
    by (intro read_assignment_rendered) simp_all
  then have a: "read_assignment (render_assignment x @ ?rest) = Some (x, ?rest)" by simp
  from Cons.prems have "\<forall>a\<in>set (y # ys). plain_column (fst a) \<and> CHR 0x27 \<notin> set (snd a)"
    by simp
  from Cons.IH [OF this] have "read_update_set ?next = Some (y # ys)" .
  then have n: "read_update_set (CHR '' '' # ?next) = Some (y # ys)"
    by (simp only: read_update_set_space)
  from a have a2: "read_assignment (render_assignment x @ ?rest) =
      Some (x, CHR '','' # (CHR '' '' # ?next))"
    by simp
  show ?case by (rule read_update_set_step [OF a2 n])
qed


lemma assignment_render:
  "assignment task f = render_assignment (sql_name f, str_of (get_data_from_task f task))"
  by (simp add: assignment_def render_assignment_def)

lemma read_update_set_assignments:
  assumes "fs \<noteq> []"
    and "\<forall>f\<in>set fs. plain_column (sql_name f) \<and> CHR 0x27 \<notin> set (str_of (get_data_from_task f task))"
  shows "read_update_set (join '', '' (map (assignment task) fs)) =
           Some (map (\<lambda>f. (sql_name f, str_of (get_data_from_task f task))) fs)"
proof -
  from assms(1) obtain g gs where fs: "fs = g # gs" by (cases fs) auto
  let ?p = "\<lambda>f. (sql_name f, str_of (get_data_from_task f task))"
  have j: "join '', '' (map (assignment task) fs) =
      render_assignment (?p g) @ concat (map (\<lambda>y. '', '' @ render_assignment y) (map ?p gs))"
    by (simp add: fs join_Cons assignment_render comp_def)
  from assms(2) have "\<forall>a\<in>set (?p g # map ?p gs). plain_column (fst a) \<and> CHR 0x27 \<notin> set (snd a)"
    by (simp add: fs)
  from read_update_set_rendered [OF this] show ?thesis
    by (simp only: j) (simp add: fs)
qed

text \<open>
  Claim C4, as amended. When \<open>insert_or_replace\<close> issues its upsert, the text of the
  update-set is the list, in field order and separated by commas, of one assignment
  \<open>column = 'value'\<close> for exactly the direct fields whose extracted value is truthy for the
  task (Python's \<open>if value:\<close>): none is written for a value that is \<open>None\<close>, the empty
  string or zero. The values of all direct fields, truthy or not, are the positional
  parameters. When the column names of those fields are plain and none of those values
  has a single quote in it, the assignments an SQL reader finds in that text are exactly
  these columns with these values; so, with distinct column names, a column whose value
  is \<open>None\<close> (or falsy) is not assigned, and absence overwrites nothing.
\<close>

theorem insert_or_replace_update_set:
  assumes "fst (insert_or_replace task st) = Inr ()"
  shows "(\<exists>tn. db_writes (trace (snd (insert_or_replace task st))) =
            db_writes (trace st)
            @ [DbWrite
                 (INSERT_OR_REPLACE_TEMPLATE tn
                    (join '','' (map sql_name (direct_fields st)))
                    (join '','' (map (\<lambda>_. ''?'') (direct_fields st)))
                    (join '', '' (map (assignment task) (update_fields (direct_fields st) task))))
                 (map (\<lambda>f. get_data_from_task f task) (direct_fields st))])
         \<and> update_fields (direct_fields st) task =
             filter (\<lambda>f. truthy (get_data_from_task f task)) (direct_fields st)
         \<and> (\<forall>f\<in>set (update_fields (direct_fields st) task).
               get_data_from_task f task \<noteq> PNone
               \<and> assignment task f =
                   '' '' @ sql_name f @ '' = '' @ SQ @ str_of (get_data_from_task f task) @ SQ)
         \<and> (update_fields (direct_fields st) task \<noteq> []
              \<and> (\<forall>f\<in>set (update_fields (direct_fields st) task).
                    plain_column (sql_name f)
                    \<and> CHR 0x27 \<notin> set (str_of (get_data_from_task f task)))
              \<longrightarrow> read_update_set
                    (join '', '' (map (assignment task) (update_fields (direct_fields st) task)))
                  = Some (map (\<lambda>f. (sql_name f, str_of (get_data_from_task f task)))
                            (update_fields (direct_fields st) task)))
         \<and> (distinct (map sql_name (direct_fields st))
              \<longrightarrow> (\<forall>f\<in>set (direct_fields st).
                     \<not> truthy (get_data_from_task f task)
                     \<longrightarrow> sql_name f \<notin> sql_name ` set (update_fields (direct_fields st) task)))
         \<and> (update_fields (direct_fields st) task \<noteq> []
              \<and> (\<forall>f\<in>set (update_fields (direct_fields st) task).
                    plain_column (sql_name f)
                    \<and> CHR 0x27 \<notin> set (str_of (get_data_from_task f task)))
              \<and> distinct (map sql_name (direct_fields st))
              \<longrightarrow> (\<exists>as. read_update_set
                          (join '', ''
                             (map (assignment task) (update_fields (direct_fields st) task)))
                        = Some as
                      \<and> (\<forall>f\<in>set (direct_fields st).
                            sql_name f \<in> fst ` set as
                            \<longleftrightarrow> truthy (get_data_from_task f task))))"
proof -
  from assms have a: "fst (for_each insert_or_replace [task] st) = Inr ()"
    by (simp only: for_each_single)
  from for_each_insert_upsertable [OF a] have u: "upsertable (direct_fields st) task" by simp
  from for_each_insert_ok [OF a] obtain tn where
    "db_writes (trace (snd (for_each insert_or_replace [task] st))) =
       db_writes (trace st) @ map (upsert_event (direct_fields st) tn) [task]"
    by blast
  then have "db_writes (trace (snd (insert_or_replace task st))) =
       db_writes (trace st) @ [upsert_event (direct_fields st) tn task]"
    by (simp only: for_each_single list.map)
  then have 1: "\<exists>tn. db_writes (trace (snd (insert_or_replace task st))) =
            db_writes (trace st)
            @ [DbWrite
                 (INSERT_OR_REPLACE_TEMPLATE tn
                    (join '','' (map sql_name (direct_fields st)))
                    (join '','' (map (\<lambda>_. ''?'') (direct_fields st)))
                    (join '', '' (map (assignment task) (update_fields (direct_fields st) task))))
                 (map (\<lambda>f. get_data_from_task f task) (direct_fields st))]"
    by (auto simp: upsert_event_def set_command_of_ok [OF u])
  have 2: "update_fields (direct_fields st) task =
             filter (\<lambda>f. truthy (get_data_from_task f task)) (direct_fields st)"
    by (simp add: update_fields_def)
  have 3: "\<forall>f\<in>set (update_fields (direct_fields st) task).
               get_data_from_task f task \<noteq> PNone
               \<and> assignment task f =
                   '' '' @ sql_name f @ '' = '' @ SQ @ str_of (get_data_from_task f task) @ SQ"
    by (auto simp: update_fields_def assignment_def)
  have 4: "update_fields (direct_fields st) task \<noteq> []
              \<and> (\<forall>f\<in>set (update_fields (direct_fields st) task).
                    plain_column (sql_name f)
                    \<and> CHR 0x27 \<notin> set (str_of (get_data_from_task f task)))
              \<longrightarrow> read_update_set
                    (join '', '' (map (assignment task) (update_fields (direct_fields st) task)))
                  = Some (map (\<lambda>f. (sql_name f, str_of (get_data_from_task f task)))
                            (update_fields (direct_fields st) task))"
    using read_update_set_assignments [of "update_fields (direct_fields st) task" task] by blast
  have 5: "distinct (map sql_name (direct_fields st))
              \<longrightarrow> (\<forall>f\<in>set (direct_fields st).
                     \<not> truthy (get_data_from_task f task)
                     \<longrightarrow> sql_name f \<notin> sql_name ` set (update_fields (direct_fields st) task))"
  proof (intro impI ballI notI)
    fix f
    assume d: "distinct (map sql_name (direct_fields st))" and f: "f \<in> set (direct_fields st)"
      and n: "\<not> truthy (get_data_from_task f task)"
      and m: "sql_name f \<in> sql_name ` set (update_fields (direct_fields st) task)"
    from m obtain g where g: "g \<in> set (direct_fields st)" "truthy (get_data_from_task g task)"
      and e: "sql_name f = sql_name g"
      by (auto simp: update_fields_def)
    from d have "inj_on sql_name (set (direct_fields st))" by (simp add: distinct_map)
    with f g(1) e have "f = g" by (auto dest: inj_onD)
    with n g(2) show False by simp
  qed
  have 6: "update_fields (direct_fields st) task \<noteq> []
              \<and> (\<forall>f\<in>set (update_fields (direct_fields st) task).
                    plain_column (sql_name f)
                    \<and> CHR 0x27 \<notin> set (str_of (get_data_from_task f task)))
              \<and> distinct (map sql_name (direct_fields st))
              \<longrightarrow> (\<exists>as. read_update_set
                          (join '', ''
                             (map (assignment task) (update_fields (direct_fields st) task)))
                        = Some as
                      \<and> (\<forall>f\<in>set (direct_fields st).
                            sql_name f \<in> fst ` set as
                            \<longleftrightarrow> truthy (get_data_from_task f task)))"
  proof (intro impI)
    assume h: "update_fields (direct_fields st) task \<noteq> []
              \<and> (\<forall>f\<in>set (update_fields (direct_fields st) task).
                    plain_column (sql_name f)
                    \<and> CHR 0x27 \<notin> set (str_of (get_data_from_task f task)))
              \<and> distinct (map sql_name (direct_fields st))"
    let ?as = "map (\<lambda>f. (sql_name f, str_of (get_data_from_task f task)))
                 (update_fields (direct_fields st) task)"
    from h 4 have r: "read_update_set
         (join '', '' (map (assignment task) (update_fields (direct_fields st) task))) = Some ?as"
      by blast
    have i: "fst ` set ?as = sql_name ` set (update_fields (direct_fields st) task)"
      by (simp add: image_image)
    have "sql_name f \<in> fst ` set ?as \<longleftrightarrow> truthy (get_data_from_task f task)"
      if f: "f \<in> set (direct_fields st)" for f
    proof
      assume "sql_name f \<in> fst ` set ?as"
      with i have "sql_name f \<in> sql_name ` set (update_fields (direct_fields st) task)"
        by simp
      with 5 h f show "truthy (get_data_from_task f task)" by blast
    next
      assume "truthy (get_data_from_task f task)"
      with f have "f \<in> set (update_fields (direct_fields st) task)"
        by (simp add: update_fields_def)
      with i show "sql_name f \<in> fst ` set ?as" by blast
    qed
    with r show "\<exists>as. read_update_set
                          (join '', ''
                             (map (assignment task) (update_fields (direct_fields st) task)))
                        = Some as
                      \<and> (\<forall>f\<in>set (direct_fields st).
                            sql_name f \<in> fst ` set as
                            \<longleftrightarrow> truthy (get_data_from_task f task))"
      by blast
  qed
  from 1 2 3 4 5 6 show ?thesis by blast
qed

lemma example_upsert_task5: "fst (insert_or_replace task5 notes_project) = Inr ()"
  by (simp add: example_defs more_example_defs method_defs)

lemma example_update_set_task5:
  "join '', '' (map (assignment task5) (update_fields (direct_fields notes_project) task5))
     = '' gid = '5',  name = 'call'' @ SQ"
  by (simp add: example_defs more_example_defs py_get_def update_fields_def assignment_def
        str_of_def)

text \<open>
  Claim C4 as stated fails, both ways. The \<open>notes\<close> of task 5 is the empty string, a value
  that is not null, and the update-set of its upsert has no assignment for \<open>notes\<close>. The
  \<open>notes\<close> of the other task is absent, and the update-set of its upsert assigns \<open>notes\<close>:
  the assignment comes with the value of \<open>name\<close>, which has single quotes in it.
\<close>

theorem update_set_is_not_the_non_null_columns:
  \<open>get_data_from_task (simple_field ''notes'' ''TEXT'') task5 = PStr []
   \<and> trace (snd (insert_or_replace task5 notes_project)) =
       [DbWrite
          ''INSERT INTO "tasks" (gid,name,notes) VALUES (?,?,?) ON CONFLICT (gid) DO UPDATE SET  gid = '5',  name = 'call';''
          [PStr ''5'', PStr ''call'', PStr []]]
   \<and> get_data_from_task (simple_field ''notes'' ''TEXT'') task_inject = PNone
   \<and> trace (snd (insert_or_replace task_inject notes_project)) =
       [DbWrite
          ''INSERT INTO "tasks" (gid,name,notes) VALUES (?,?,?) ON CONFLICT (gid) DO UPDATE SET  gid = '9',  name = 'x',  notes = 'pwned';''
          [PStr ''9'', PStr (''x'' @ SQ @ '',  notes = '' @ SQ @ ''pwned''), PNone]]
   \<and> read_update_set ('' gid = '9',  name = 'x',  notes = 'pwned'' @ SQ)
       = Some [(''gid'', ''9''), (''name'', ''x''), (''notes'', ''pwned'')]\<close>
proof -
  have a: \<open>get_data_from_task (simple_field ''notes'' ''TEXT'') task5 = PStr []
   \<and> trace (snd (insert_or_replace task5 notes_project)) =
       [DbWrite
          ''INSERT INTO "tasks" (gid,name,notes) VALUES (?,?,?) ON CONFLICT (gid) DO UPDATE SET  gid = '5',  name = 'call';''
          [PStr ''5'', PStr ''call'', PStr []]]
   \<and> get_data_from_task (simple_field ''notes'' ''TEXT'') task_inject = PNone
   \<and> trace (snd (insert_or_replace task_inject notes_project)) =
       [DbWrite
          ''INSERT INTO "tasks" (gid,name,notes) VALUES (?,?,?) ON CONFLICT (gid) DO UPDATE SET  gid = '9',  name = 'x',  notes = 'pwned';''
          [PStr ''9'', PStr (''x'' @ SQ @ '',  notes = '' @ SQ @ ''pwned''), PNone]]\<close>
    by (simp add: example_defs more_example_defs method_defs)
  have b: "read_update_set ('' gid = '9',  name = 'x',  notes = 'pwned'' @ SQ)
       = Some [(''gid'', ''9''), (''name'', ''x''), (''notes'', ''pwned'')]"
    by code_simp
  from a b show ?thesis by blast
qed

theorem insert_or_replace_update_set_witness:
  "fst (insert_or_replace task5 notes_project) = Inr ()
   \<and> map sql_name (update_fields (direct_fields notes_project) task5) = [''gid'', ''name'']
   \<and> map (\<lambda>f. get_data_from_task f task5) (direct_fields notes_project)
       = [PStr ''5'', PStr ''call'', PStr []]
   \<and> read_update_set ('' gid = '5',  name = 'call'' @ SQ)
       = Some [(''gid'', ''5''), (''name'', ''call'')]
   \<and> ''notes'' \<notin> sql_name ` set (update_fields (direct_fields notes_project) task5)"
proof -
  note upd = insert_or_replace_update_set [OF example_upsert_task5]
  have h: "update_fields (direct_fields notes_project) task5 \<noteq> []
     \<and> (\<forall>f\<in>set (update_fields (direct_fields notes_project) task5).
           plain_column (sql_name f) \<and> CHR 0x27 \<notin> set (str_of (get_data_from_task f task5)))"
    by (simp add: example_defs more_example_defs py_get_def update_fields_def plain_column_def
          is_word_char_def str_of_def)
  from upd h have "read_update_set
       (join '', '' (map (assignment task5) (update_fields (direct_fields notes_project) task5)))
     = Some (map (\<lambda>f. (sql_name f, str_of (get_data_from_task f task5)))
               (update_fields (direct_fields notes_project) task5))"
    by blast
  then have r: "read_update_set ('' gid = '5',  name = 'call'' @ SQ)
       = Some [(''gid'', ''5''), (''name'', ''call'')]"
    by (simp only: example_update_set_task5)
       (simp add: example_defs more_example_defs py_get_def update_fields_def str_of_def)
  have d: "distinct (map sql_name (direct_fields notes_project))"
    by (simp add: example_defs more_example_defs)
  have f: "simple_field ''notes'' ''TEXT'' \<in> set (direct_fields notes_project)
     \<and> \<not> truthy (get_data_from_task (simple_field ''notes'' ''TEXT'') task5)"
    by (simp add: example_defs more_example_defs py_get_def)
  from upd d f have "sql_name (simple_field ''notes'' ''TEXT'')
      \<notin> sql_name ` set (update_fields (direct_fields notes_project) task5)"
    by blast
  then have n: "''notes'' \<notin> sql_name ` set (update_fields (direct_fields notes_project) task5)"
    by (simp add: simple_field_def)
  have e: "fst (insert_or_replace task5 notes_project) = Inr ()
   \<and> map sql_name (update_fields (direct_fields notes_project) task5) = [''gid'', ''name'']
   \<and> map (\<lambda>f. get_data_from_task f task5) (direct_fields notes_project)
       = [PStr ''5'', PStr ''call'', PStr []]"
    using example_upsert_task5
    by (simp add: example_defs more_example_defs py_get_def update_fields_def)
  from e r n show ?thesis by blast
qed

text \<open>
  Claim C9. If some direct field's value is truthy and not a string, \<open>insert_or_replace\<close>
  raises \<open>TypeError\<close> and the object is unchanged: no statement was issued and no remote
  call made. Otherwise the statement it writes has the update-set built by
  concatenation, each truthy value between two single quotes as it is, while the values
  of all direct fields go as positional parameters of the \<open>VALUES\<close> list. The text
  between the quotes is the SQL literal of the value only when the value has no single
  quote in it.
\<close>

theorem insert_or_replace_concatenates_values:
  "((\<exists>f\<in>set (direct_fields st).
        truthy (get_data_from_task f task) \<and> \<not> is_str (get_data_from_task f task))
      \<longrightarrow> insert_or_replace task st = (Inl TypeError, st))
   \<and> (\<not> (\<exists>f\<in>set (direct_fields st).
        truthy (get_data_from_task f task) \<and> \<not> is_str (get_data_from_task f task))
      \<longrightarrow> insert_or_replace task st =
          bindM table_name
            (\<lambda>tn. emit
               (DbWrite
                  (INSERT_OR_REPLACE_TEMPLATE tn
                     (join '','' (map sql_name (direct_fields st)))
                     (join '','' (map (\<lambda>_. ''?'') (direct_fields st)))
                     (join '', ''
                        (map (\<lambda>f. '' '' @ sql_name f @ '' = ''
                                      @ SQ @ str_of (get_data_from_task f task) @ SQ)
                           (filter (\<lambda>f. truthy (get_data_from_task f task))
                              (direct_fields st)))))
                  (map (\<lambda>f. get_data_from_task f task) (direct_fields st))))
            st)
   \<and> (\<forall>s. (SQ @ s @ SQ = SQ @ sql_escape s @ SQ) \<longleftrightarrow> CHR 0x27 \<notin> set s)"
proof (intro conjI impI allI)
  assume "\<exists>f\<in>set (direct_fields st).
        truthy (get_data_from_task f task) \<and> \<not> is_str (get_data_from_task f task)"
  then have "\<not> upsertable (direct_fields st) task" by (simp only: not_upsertable_iff)
  then show "insert_or_replace task st = (Inl TypeError, st)"
    by (rule insert_or_replace_type_error)
next
  assume "\<not> (\<exists>f\<in>set (direct_fields st).
        truthy (get_data_from_task f task) \<and> \<not> is_str (get_data_from_task f task))"
  then have u: "upsertable (direct_fields st) task" using not_upsertable_iff by blast
  have m: "map (assignment task) (update_fields (direct_fields st) task) =
      map (\<lambda>f. '' '' @ sql_name f @ '' = '' @ SQ @ str_of (get_data_from_task f task) @ SQ)
        (filter (\<lambda>f. truthy (get_data_from_task f task)) (direct_fields st))"
    by (simp add: update_fields_def assignment_def)
  show "insert_or_replace task st =
          bindM table_name
            (\<lambda>tn. emit
               (DbWrite
                  (INSERT_OR_REPLACE_TEMPLATE tn
                     (join '','' (map sql_name (direct_fields st)))
                     (join '','' (map (\<lambda>_. ''?'') (direct_fields st)))
                     (join '', ''
                        (map (\<lambda>f. '' '' @ sql_name f @ '' = ''
                                      @ SQ @ str_of (get_data_from_task f task) @ SQ)
                           (filter (\<lambda>f. truthy (get_data_from_task f task))
                              (direct_fields st)))))
                  (map (\<lambda>f. get_data_from_task f task) (direct_fields st))))
            st"
    unfolding insert_or_replace_table_name [OF u] upsert_event_def set_command_of_ok [OF u] m ..
next
  fix s
  show "(SQ @ s @ SQ = SQ @ sql_escape s @ SQ) \<longleftrightarrow> CHR 0x27 \<notin> set s"
    using sql_escape_id [of s] by auto
qed

theorem insert_or_replace_concatenates_values_witness:
  \<open>insert_or_replace task6 completed_project = (Inl TypeError, completed_project)
   \<and> get_data_from_task (simple_field ''completed'' ''BOOLEAN'') task6 = PInt 1
   \<and> trace (snd (insert_or_replace task_quote notes_project)) =
       [DbWrite
          (''INSERT INTO "tasks" (gid,name,notes) VALUES (?,?,?) ON CONFLICT (gid) DO UPDATE SET  gid = '8',  name = 'O'' @ SQ @ ''Brien';'')
          [PStr ''8'', PStr (''O'' @ SQ @ ''Brien''), PNone]]
   \<and> sql_escape (''O'' @ SQ @ ''Brien'') = ''O'' @ SQ @ SQ @ ''Brien''
   \<and> map write_sql (trace (snd (insert_or_replace task_inject notes_project))) =
       map write_sql (trace (snd (insert_or_replace task_plain notes_project)))
   \<and> py_get task_inject ''notes'' = PNone \<and> py_get task_plain ''notes'' = PStr ''pwned''\<close>
proof -
  have a: "\<exists>f\<in>set (direct_fields completed_project).
        truthy (get_data_from_task f task6) \<and> \<not> is_str (get_data_from_task f task6)"
    by (simp add: example_defs more_example_defs py_get_def is_str_def)
  from insert_or_replace_concatenates_values [of completed_project task6] a
  have "insert_or_replace task6 completed_project = (Inl TypeError, completed_project)"
    by blast
  moreover have \<open>get_data_from_task (simple_field ''completed'' ''BOOLEAN'') task6 = PInt 1
   \<and> trace (snd (insert_or_replace task_quote notes_project)) =
       [DbWrite
          (''INSERT INTO "tasks" (gid,name,notes) VALUES (?,?,?) ON CONFLICT (gid) DO UPDATE SET  gid = '8',  name = 'O'' @ SQ @ ''Brien';'')
          [PStr ''8'', PStr (''O'' @ SQ @ ''Brien''), PNone]]
   \<and> sql_escape (''O'' @ SQ @ ''Brien'') = ''O'' @ SQ @ SQ @ ''Brien''
   \<and> map write_sql (trace (snd (insert_or_replace task_inject notes_project))) =
       map write_sql (trace (snd (insert_or_replace task_plain notes_project)))
   \<and> py_get task_inject ''notes'' = PNone \<and> py_get task_plain ''notes'' = PStr ''pwned''\<close>
    by (simp add: example_defs more_example_defs method_defs sql_escape_def)
  ultimately show ?thesis by blast
qed

text \<open>
  Claim C3 at a field list whose first direct field is the column \<open>task_id\<close>: the select
  and the delete statement use \<open>task_id\<close>, the upsert statement's conflict target is the
  literal \<open>gid\<close> of the template.
\<close>

theorem conflict_target_is_gid_while_id_column_is_task_id:
  \<open>map sql_name (direct_fields id_column_project) = [''task_id'', ''name'']
   \<and> trace (snd (db_task_ids id_column_project)) = [DbRead ''SELECT task_id FROM "tasks";'']
   \<and> trace (snd (delete (PStr ''2'') id_column_project)) =
       [DbWrite ''DELETE FROM "tasks" WHERE task_id = ?;'' [PStr ''2'']]
   \<and> trace (snd (insert_or_replace task2 id_column_project)) =
       [DbWrite
          ''INSERT INTO "tasks" (task_id,name) VALUES (?,?) ON CONFLICT (gid) DO UPDATE SET  task_id = '2',  name = 'write';''
          [PStr ''2'', PStr ''write'']]\<close>
  by (simp add: example_defs more_example_defs method_defs)

text \<open>
  Claim C6, as amended. With a non-empty configured table name, \<open>table_name\<close> returns the
  sanitised configured name and calls nothing (the object, with its trace, is
  unchanged). With no configured name, or an empty one, it reads the project metadata
  (fetching it unless cached) and returns the sanitised project name. Once it has
  returned a name, a further call returns the same name and changes nothing.
\<close>

theorem table_name_resolution:
  "(\<forall>n. table_name_attr st = Some n \<and> n \<noteq> [] \<longrightarrow>
        table_name st = (Inr (util_sql_safe_name st n), st))
   \<and> (table_name_attr st = None \<or> table_name_attr st = Some [] \<longrightarrow>
        snd (table_name st) = snd (project_data st)
        \<and> (\<forall>tn. fst (table_name st) = Inr tn \<longleftrightarrow>
              (\<exists>s. fst (project_name st) = Inr (PStr s) \<and> tn = util_sql_safe_name st s)))
   \<and> (\<forall>tn. fst (table_name st) = Inr tn \<longrightarrow>
        table_name (snd (table_name st)) = (Inr tn, snd (table_name st)))"
proof (intro conjI allI impI)
  fix n assume "table_name_attr st = Some n \<and> n \<noteq> []"
  then show "table_name st = (Inr (util_sql_safe_name st n), st)"
    by (simp add: table_name_def)
next
  assume nc: "table_name_attr st = None \<or> table_name_attr st = Some []"
  have pn: "snd (project_name st) = snd (project_data st)"
    by (cases "project_data st") (auto simp: project_name_def bindM_def split: sum.splits option.splits)
  from step_project_data [of False st]
  have u: "util_sql_safe_name (snd (project_data st)) = util_sql_safe_name st"
    by (simp add: step_def frame_def)
  from nc have tn: "table_name st =
     (case project_name st of
        (Inl e, st') \<Rightarrow> (Inl e, st')
      | (Inr (PStr s), st') \<Rightarrow> (Inr (util_sql_safe_name st' s), st')
      | (Inr _, st') \<Rightarrow> (Inl TypeError, st'))"
    by (auto simp: table_name_def)
  from tn pn show "snd (table_name st) = snd (project_data st)"
    by (cases "project_name st") (auto split: sum.splits pyval.splits)
  fix tn'
  from tn pn u show "fst (table_name st) = Inr tn' \<longleftrightarrow>
              (\<exists>s. fst (project_name st) = Inr (PStr s) \<and> tn' = util_sql_safe_name st s)"
    by (cases "project_name st") (auto split: sum.splits pyval.splits)
next
  fix tn assume "fst (table_name st) = Inr tn"
  then have "resolved (snd (table_name st)) tn" by (rule table_name_resolves)
  then show "table_name (snd (table_name st)) = (Inr tn, snd (table_name st))"
    by (rule resolved_table_name)
qed

text \<open>
  Claim C6 as stated fails: the configured name \<open>my table\<close> is not returned as it is but
  sanitised (here with the sanitiser modelled from the spec), and a configured empty
  name is passed over for the project name (here with the identity as sanitiser).
\<close>

theorem configured_name_is_sanitised_and_empty_name_is_ignored:
  "table_name_attr named_project = Some ''my table''
   \<and> fst (table_name named_project) = Inr ''my_table''
   \<and> table_name_attr empty_name_project = Some []
   \<and> fst (table_name empty_name_project) = Inr ''Road map''
   \<and> trace (snd (table_name empty_name_project)) = [FindById 7]"
  by (simp add: example_defs more_example_defs method_defs)

theorem table_name_resolution_witness:
  "table_name_attr named_project = Some ''my table''
   \<and> util_sql_safe_name named_project ''my table'' = ''my_table''
   \<and> trace (snd (table_name named_project)) = []
   \<and> table_name_attr example_project = None
   \<and> fst (project_name example_project) = Inr (PStr ''Road map'')
   \<and> fst (table_name example_project) = Inr ''Road_map''
   \<and> fst (table_name (snd (table_name example_project))) = Inr ''Road_map''
   \<and> trace (snd (table_name (snd (table_name example_project)))) = [FindById 7]"
proof -
  have a: "table_name_attr named_project = Some ''my table'' \<and> ''my table'' \<noteq> []"
    by (simp add: example_defs more_example_defs)
  from table_name_resolution [of named_project] a
  have "table_name named_project =
      (Inr (util_sql_safe_name named_project ''my table''), named_project)"
    by blast
  then have b: "trace (snd (table_name named_project)) = trace named_project"
    by simp
  have c: "fst (table_name example_project) = Inr ''Road_map''"
    by (simp add: example_defs method_defs)
  from table_name_resolution [of example_project] c
  have d: "table_name (snd (table_name example_project)) =
      (Inr ''Road_map'', snd (table_name example_project))"
    by blast
  have e: "util_sql_safe_name named_project ''my table'' = ''my_table''
   \<and> trace named_project = []
   \<and> table_name_attr example_project = None
   \<and> fst (project_name example_project) = Inr (PStr ''Road map'')
   \<and> trace (snd (table_name example_project)) = [FindById 7]"
    by (simp add: example_defs more_example_defs method_defs)
  from a b c d e show ?thesis by simp
qed


lemma filter_is_delete_db_writes: "filter is_delete (db_writes evs) = filter is_delete evs"
  by (induction evs) (auto simp: db_writes_def dest: is_delete_is_write)

lemma filter_is_delete_upserts [simp]: "filter is_delete (map (upsert_event fs tn) ts) = []"
  by (induction ts) simp_all

lemma filter_is_delete_deletes [simp]:
  "filter is_delete (map (delete_event tn col) ids) = map (delete_event tn col) ids"
  by (induction ids) simp_all

lemma step_synchronize: "step True (\<lambda>e. True) st (snd (synchronize st))"
  unfolding synchronize_def asana_task_ids_def Let_def
  apply (rule step_bindM)
   apply (rule step_mono [OF step_db_task_ids], simp)
  apply (rule step_bindM)
   apply (rule step_bindM)
    apply (rule step_mono [OF step_tasks], simp)
   apply (simp add: step_refl)
  apply (rule step_bindM)
   apply (rule step_mono [OF step_tasks], simp)
  apply (rule step_bindM)
   apply (rule step_mono [OF step_for_each_insert], simp)
  apply (rule step_mono [OF step_for_each_delete], simp)
  done

lemma synchronize_deleted_ids:
  assumes "fst (synchronize st) = Inr ()"
  shows "\<exists>idf fs tn raw ts.
           direct_fields st = idf # fs
           \<and> first_columns (db_read (db_client st) (SELECT_TEMPLATE (sql_name idf) tn)) = Inr raw
           \<and> task_cache (snd (synchronize st)) = Some ts
           \<and> deleted_ids st (snd (synchronize st)) =
               difference (remdups raw) (remdups (map (\<lambda>task. py_get task ''gid'') ts))"
proof -
  from synchronize_ok [OF assms] obtain idf fs tn raw ts where
    a: "direct_fields st = idf # fs" and
    c: "first_columns (db_read (db_client st) (SELECT_TEMPLATE (sql_name idf) tn)) = Inr raw" and
    d: "task_cache (snd (synchronize st)) = Some ts" and
    e: "db_writes (trace (snd (synchronize st))) =
          db_writes (trace st)
          @ map (upsert_event (direct_fields st) tn) ts
          @ map (delete_event tn (sql_name idf))
              (difference (remdups raw) (remdups (map (\<lambda>task. py_get task ''gid'') ts)))"
    by blast
  let ?dels = "difference (remdups raw) (remdups (map (\<lambda>task. py_get task ''gid'') ts))"
  from step_traceD [OF step_synchronize [of st]] obtain evs where
    t: "trace (snd (synchronize st)) = trace st @ evs" by blast
  with e have "db_writes evs =
      map (upsert_event (direct_fields st) tn) ts @ map (delete_event tn (sql_name idf)) ?dels"
    by simp
  then have "filter is_delete (db_writes evs) = map (delete_event tn (sql_name idf)) ?dels"
    by simp
  then have "filter is_delete evs = map (delete_event tn (sql_name idf)) ?dels"
    by (simp only: filter_is_delete_db_writes)
  with t have "deleted_ids st (snd (synchronize st)) = ?dels"
    by (simp add: deleted_ids_def comp_def)
  with a c d show ?thesis by blast
qed

text \<open>
  Claim C10, as amended. With the task cache filled, \<open>asana_task_ids\<close> does not raise and
  a record without \<open>gid\<close> contributes \<open>None\<close>. On the first use it fetches the tasks and
  returns normally exactly when every top-level record has a \<open>gid\<close> and every sub-task
  record a \<open>name\<close>: only a sub-task record can lack \<open>gid\<close> without an exception. In a
  run of \<open>synchronize\<close> that returns normally, a stored identifier other than \<open>None\<close> is
  deleted exactly when it is not the \<open>gid\<close> of a fetched record that has one: records
  without \<open>gid\<close> do not matter for it.
\<close>

theorem asana_task_ids_record_without_gid:
  "(\<forall>ts. task_cache st = Some ts \<longrightarrow>
        asana_task_ids st = (Inr (remdups (map (\<lambda>task. py_get task ''gid'') ts)), st))
   \<and> (task_cache st = None \<longrightarrow>
        ((\<exists>ids. fst (asana_task_ids st) = Inr ids) \<longleftrightarrow>
         fetch_ok (asana_client st) (fields_param st)
           (find_by_project (asana_client st) (project_id st) (fields_param st))))
   \<and> (\<forall>task. \<not> has_key ''gid'' task \<longrightarrow> py_get task ''gid'' = PNone)
   \<and> (fst (synchronize st) = Inr () \<longrightarrow>
        (\<exists>idf fs tn raw ts.
           direct_fields st = idf # fs
           \<and> first_columns (db_read (db_client st) (SELECT_TEMPLATE (sql_name idf) tn)) = Inr raw
           \<and> task_cache (snd (synchronize st)) = Some ts
           \<and> (\<forall>i. i \<noteq> PNone \<longrightarrow>
                 (i \<in> set (deleted_ids st (snd (synchronize st))) \<longleftrightarrow>
                  i \<in> set raw
                  \<and> (\<forall>task\<in>set ts. has_key ''gid'' task \<longrightarrow> py_get task ''gid'' \<noteq> i)))))"
proof (intro conjI allI impI)
  fix ts assume "task_cache st = Some ts"
  then show "asana_task_ids st = (Inr (remdups (map (\<lambda>task. py_get task ''gid'') ts)), st)"
    by (simp add: asana_task_ids_tasks tasks_cached)
next
  assume n: "task_cache st = None"
  let ?ok = "fetch_ok (asana_client st) (fields_param st)
           (find_by_project (asana_client st) (project_id st) (fields_param st))"
  show "(\<exists>ids. fst (asana_task_ids st) = Inr ids) \<longleftrightarrow> ?ok"
  proof (cases ?ok)
    case True
    from tasks_fresh_ok [OF n True] True show ?thesis
      by (simp add: asana_task_ids_tasks)
  next
    case False
    from tasks_fresh_fail [OF n False] obtain e where "fst (tasks st) = Inl e" ..
    then have "fst (asana_task_ids st) = Inl e"
      by (cases "tasks st") (simp add: asana_task_ids_tasks)
    with False show ?thesis by simp
  qed
next
  fix task :: pydict assume "\<not> has_key ''gid'' task"
  then show "py_get task ''gid'' = PNone"
    by (simp add: has_key_def py_get_def)
next
  assume "fst (synchronize st) = Inr ()"
  from synchronize_deleted_ids [OF this] obtain idf fs tn raw ts where
    a: "direct_fields st = idf # fs" and
    c: "first_columns (db_read (db_client st) (SELECT_TEMPLATE (sql_name idf) tn)) = Inr raw" and
    d: "task_cache (snd (synchronize st)) = Some ts" and
    e: "deleted_ids st (snd (synchronize st)) =
               difference (remdups raw) (remdups (map (\<lambda>task. py_get task ''gid'') ts))"
    by blast
  have "i \<in> set (deleted_ids st (snd (synchronize st))) \<longleftrightarrow>
          i \<in> set raw \<and> (\<forall>task\<in>set ts. has_key ''gid'' task \<longrightarrow> py_get task ''gid'' \<noteq> i)"
    if "i \<noteq> PNone" for i
  proof -
    have "i \<notin> (\<lambda>task. py_get task ''gid'') ` set ts \<longleftrightarrow>
          (\<forall>task\<in>set ts. has_key ''gid'' task \<longrightarrow> py_get task ''gid'' \<noteq> i)"
      using that by (force simp: has_key_def py_get_def image_iff split: option.splits)
    then show ?thesis by (simp add: e)
  qed
  with a c d show "\<exists>idf fs tn raw ts.
           direct_fields st = idf # fs
           \<and> first_columns (db_read (db_client st) (SELECT_TEMPLATE (sql_name idf) tn)) = Inr raw
           \<and> task_cache (snd (synchronize st)) = Some ts
           \<and> (\<forall>i. i \<noteq> PNone \<longrightarrow>
                 (i \<in> set (deleted_ids st (snd (synchronize st))) \<longleftrightarrow>
                  i \<in> set raw
                  \<and> (\<forall>task\<in>set ts. has_key ''gid'' task \<longrightarrow> py_get task ''gid'' \<noteq> i)))"
    by blast
qed

text \<open>
  Claim C10 as stated fails: a top-level record without \<open>gid\<close> makes \<open>asana_task_ids\<close>
  (and \<open>synchronize\<close>) raise \<open>KeyError\<close>; and with a sub-task record without \<open>gid\<close> the
  stored null identifier is matched by its \<open>None\<close> and no longer deleted, while without
  that record it is.
\<close>

theorem record_without_gid_raises_or_matches_null_id:
  "\<not> has_key ''gid'' no_gid_task
   \<and> find_by_project (asana_client no_gid_top_project) (project_id no_gid_top_project)
        (fields_param no_gid_top_project) = [no_gid_task]
   \<and> fst (asana_task_ids no_gid_top_project) = Inl (KeyError ''gid'')
   \<and> fst (synchronize no_gid_top_project) = Inl (KeyError ''gid'')
   \<and> fst (asana_task_ids no_gid_sub_project) = Inr [PStr ''3'', PNone]
   \<and> deleted_ids no_gid_sub_project (snd (synchronize no_gid_sub_project)) = [PStr ''1'']
   \<and> fst (asana_task_ids null_id_project) = Inr [PStr ''3'']
   \<and> deleted_ids null_id_project (snd (synchronize null_id_project)) = [PNone, PStr ''1'']"
  by (simp add: example_defs more_example_defs method_defs has_key_def deleted_ids_def)

theorem asana_task_ids_record_without_gid_witness:
  "task_cache no_gid_sub_project = None
   \<and> fst (asana_task_ids no_gid_sub_project) = Inr [PStr ''3'', PNone]
   \<and> task_cache (snd (tasks no_gid_sub_project)) = Some [task3, no_gid_task]
   \<and> asana_task_ids (snd (tasks no_gid_sub_project)) =
       (Inr [PStr ''3'', PNone], snd (tasks no_gid_sub_project))
   \<and> fst (synchronize no_gid_sub_project) = Inr ()
   \<and> PStr ''1'' \<in> set (deleted_ids no_gid_sub_project (snd (synchronize no_gid_sub_project)))
   \<and> PStr ''3'' \<notin> set (deleted_ids no_gid_sub_project (snd (synchronize no_gid_sub_project)))"
proof -
  have c: "task_cache (snd (tasks no_gid_sub_project)) = Some [task3, no_gid_task]"
    by (simp add: example_defs more_example_defs method_defs)
  from asana_task_ids_record_without_gid [of "snd (tasks no_gid_sub_project)"] c
  have "asana_task_ids (snd (tasks no_gid_sub_project)) =
      (Inr (remdups (map (\<lambda>task. py_get task ''gid'') [task3, no_gid_task])),
       snd (tasks no_gid_sub_project))"
    by blast
  then have d: "asana_task_ids (snd (tasks no_gid_sub_project)) =
       (Inr [PStr ''3'', PNone], snd (tasks no_gid_sub_project))"
    by (simp add: example_defs more_example_defs py_get_def)
  have e: "task_cache no_gid_sub_project = None
   \<and> fst (asana_task_ids no_gid_sub_project) = Inr [PStr ''3'', PNone]
   \<and> fst (synchronize no_gid_sub_project) = Inr ()
   \<and> PStr ''1'' \<in> set (deleted_ids no_gid_sub_project (snd (synchronize no_gid_sub_project)))
   \<and> PStr ''3'' \<notin> set (deleted_ids no_gid_sub_project (snd (synchronize no_gid_sub_project)))"
    by (simp add: example_defs more_example_defs method_defs deleted_ids_def)
  from c d e show ?thesis by blast
qed

section \<open>Runs that return normally\<close>

text \<open>
  The properties of \<open>synchronize\<close> and \<open>export\<close> above are about runs that return
  normally. Such runs are the rule: \<open>synchronize\<close> on a fresh object returns normally
  whenever there is a direct field, the table name resolves, every row read has a first
  column, the fetch does not raise and every truthy value of a direct field is a
  string; \<open>export\<close> likewise.
\<close>

lemma project_data_task_cache: "task_cache (snd (project_data st)) = task_cache st"
  by (simp add: project_data_def Let_def split: option.splits sum.splits api_error.splits)

lemma project_name_state: "snd (project_name st) = snd (project_data st)"
  by (cases "project_data st")
     (auto simp: project_name_def bindM_def split: sum.splits option.splits)

lemma table_name_state:
  "snd (table_name st) = st \<or> snd (table_name st) = snd (project_data st)"
proof -
  have "snd (table_name st) = st \<or> snd (table_name st) = snd (project_name st)"
    by (simp add: table_name_def split: option.splits prod.splits sum.splits pyval.splits)
  then show ?thesis by (simp add: project_name_state)
qed

lemma table_name_task_cache: "task_cache (snd (table_name st)) = task_cache st"
  using table_name_state [of st] by (auto simp: project_data_task_cache)

lemma for_each_insert_resolved_ok:
  "resolved st tn \<Longrightarrow> list_all (upsertable (direct_fields st)) ts \<Longrightarrow>
   for_each insert_or_replace ts st =
     (Inr (), st\<lparr>trace := trace st @ map (upsert_event (direct_fields st) tn) ts\<rparr>)"
proof (induction ts arbitrary: st)
  case Nil
  show ?case by simp
next
  case (Cons t ts)
  let ?st1 = "st\<lparr>trace := trace st @ [upsert_event (direct_fields st) tn t]\<rparr>"
  from Cons.prems have "insert_or_replace t st = (Inr (), ?st1)"
    by (simp add: insert_or_replace_resolved)
  moreover from Cons.prems have "resolved ?st1 tn" "list_all (upsertable (direct_fields ?st1)) ts"
    by simp_all
  from Cons.IH [OF this] have "for_each insert_or_replace ts ?st1 =
     (Inr (), ?st1\<lparr>trace := trace ?st1 @ map (upsert_event (direct_fields ?st1) tn) ts\<rparr>)" .
  ultimately show ?case by (simp add: bindM_def)
qed

lemma synchronize_returns:
  assumes df: "direct_fields st = idf # fs"
    and tn: "fst (table_name st) = Inr tn"
    and raw: "first_columns (db_read (db_client st) (SELECT_TEMPLATE (sql_name idf) tn)) = Inr raw"
    and tc: "task_cache st = None"
    and ok: "fetch_ok (asana_client st) (fields_param st)
               (find_by_project (asana_client st) (project_id st) (fields_param st))"
    and up: "list_all (upsertable (direct_fields st))
               (flatten_tasks (asana_client st) (fields_param st)
                  (find_by_project (asana_client st) (project_id st) (fields_param st)))"
  shows "fst (synchronize st) = Inr ()"
proof -
  obtain st0 where t0: "table_name st = (Inr tn, st0)"
    using tn by (cases "table_name st") simp
  then have res0: "resolved st0 tn" using table_name_resolves [of st tn] by simp
  from step_table_name [of True st] t0 have s0: "step True (\<lambda>e. \<not> is_write e) st st0" by simp
  then have f0: "frame st st0" by (simp add: step_def)
  from t0 have tc0: "task_cache st0 = None" using table_name_task_cache [of st] tc by simp
  let ?sql = "SELECT_TEMPLATE (sql_name idf) tn"
  let ?st1 = "st0\<lparr>trace := trace st0 @ [DbRead ?sql]\<rparr>"
  have idf: "id_field st = (Inr idf, st)" by (simp add: id_field_def df)
  from f0 have dbc: "db_client st0 = db_client st" by (simp add: frame_def)
  have d: "db_task_ids st = (Inr (remdups raw), ?st1)"
    by (simp add: db_task_ids_def bindM_def idf t0 Let_def dbc raw)
  from f0 have f1: "frame st ?st1" by (simp add: frame_def)
  then have c1: "asana_client ?st1 = asana_client st" "project_id ?st1 = project_id st"
    "direct_fields ?st1 = direct_fields st"
    by (simp_all add: frame_def)
  from f1 have c2: "fields_param ?st1 = fields_param st" by (rule fields_param_frame)
  let ?flat = "flatten_tasks (asana_client st) (fields_param st)
                  (find_by_project (asana_client st) (project_id st) (fields_param st))"
  from tc0 have n1: "task_cache ?st1 = None" by simp
  from ok have ok1: "fetch_ok (asana_client ?st1) (fields_param ?st1)
               (find_by_project (asana_client ?st1) (project_id ?st1) (fields_param ?st1))"
    by (simp only: c1 c2)
  from tasks_fresh_ok [OF n1 ok1] have "fst (tasks ?st1) = Inr ?flat"
    by (simp only: c1 c2 fst_conv)
  then obtain st2 where t: "tasks ?st1 = (Inr ?flat, st2)"
    by (cases "tasks ?st1") simp
  from step_tasks [of ?st1] t have s2: "step True (\<lambda>e. \<not> is_write e) ?st1 st2" by simp
  from res0 have r1: "resolved ?st1 tn" by simp
  from r1 s2 have res2: "resolved st2 tn" by (rule resolved_step)
  from step_fieldsD [OF s2] c1 have df2: "direct_fields st2 = direct_fields st" by simp
  let ?dels = "difference (remdups raw) (remdups (map (\<lambda>task. py_get task ''gid'') ?flat))"
  from synchronize_unfold [OF d t] have u: "synchronize st =
     bindM (for_each insert_or_replace ?flat) (\<lambda>_. for_each delete ?dels) st2" .
  let ?st3 = "st2\<lparr>trace := trace st2 @ map (upsert_event (direct_fields st2) tn) ?flat\<rparr>"
  from up df2 have "list_all (upsertable (direct_fields st2)) ?flat" by simp
  from for_each_insert_resolved_ok [OF res2 this]
  have i: "for_each insert_or_replace ?flat st2 = (Inr (), ?st3)" .
  from res2 df2 df have "resolved ?st3 tn" "direct_fields ?st3 = idf # fs" by simp_all
  from for_each_delete_resolved [OF this, of ?dels]
  have "for_each delete ?dels ?st3 =
     (Inr (), ?st3\<lparr>trace := trace ?st3 @ map (delete_event tn (sql_name idf)) ?dels\<rparr>)" .
  with i have "bindM (for_each insert_or_replace ?flat) (\<lambda>_. for_each delete ?dels) st2 =
     (Inr (), ?st3\<lparr>trace := trace ?st3 @ map (delete_event tn (sql_name idf)) ?dels\<rparr>)"
    by (simp add: bindM_def)
  with u show ?thesis by simp
qed

lemma export_returns:
  assumes tc: "task_cache st = None"
    and ok: "fetch_ok (asana_client st) (fields_param st)
               (find_by_project (asana_client st) (project_id st) (fields_param st))"
    and up: "list_all (upsertable (direct_fields st))
               (flatten_tasks (asana_client st) (fields_param st)
                  (find_by_project (asana_client st) (project_id st) (fields_param st)))"
    and tn: "resolved st tn"
  shows "fst (export st) = Inr ()"
proof -
  let ?flat = "flatten_tasks (asana_client st) (fields_param st)
                  (find_by_project (asana_client st) (project_id st) (fields_param st))"
  obtain st1 where t: "tasks st = (Inr ?flat, st1)"
    using tasks_fresh_ok [OF tc ok] by simp
  from step_tasks [of st] t have s1: "step True (\<lambda>e. \<not> is_write e) st st1" by simp
  from tn s1 have res1: "resolved st1 tn" by (rule resolved_step)
  from s1 have df1: "direct_fields st1 = direct_fields st" by (rule step_fieldsD)
  with up have "list_all (upsertable (direct_fields st1)) ?flat" by simp
  from for_each_insert_resolved_ok [OF res1 this] t show ?thesis
    by (simp add: export_unfold)
qed

section \<open>Sub-tasks as peers\<close>







end
